theory Spec2Isabelle
  imports Complex_Main "HOL-Library.Log_Nat" "HOL-Library.Sublist" "HOL-Library.Multiset"
begin

section \<open>Binary64 numbers\<close>

text \<open>
  Every number the script handles is a NumPy \<^verbatim>\<open>float64\<close>: \<^verbatim>\<open>np.mean\<close> accumulates in
  float64 (integer columns are converted first) and \<^verbatim>\<open>np.linspace(0, 20, num)\<close> returns
  float64. A value is a finite rational, an infinity or NaN. The two zeros are identified
  (they compare equal in Python), and a zero divisor counts as \<open>+0\<close>: the only divisors
  of the script are element counts.
\<close>

datatype f64 = Fin rat | PInf | NInf | NaN

text \<open>\<open>ilog2 q\<close> is \<open>\<lfloor>log\<^sub>2 q\<rfloor>\<close> for \<open>q > 0\<close>, computed from the bit lengths of numerator and
  denominator.\<close>

definition ilog2 :: "rat \<Rightarrow> int" where
  "ilog2 q = (let (a, b) = quotient_of q; d = bitlen a - bitlen b
              in if 2 powi d \<le> q then d else d - 1)"

definition round_half_even :: "rat \<Rightarrow> int" where
  "round_half_even x =
     (let f = \<lfloor>x\<rfloor>; d = x - of_int f
      in if d < 1 / 2 then f else if 1 / 2 < d then f + 1
         else if even f then f else f + 1)"

text \<open>The exponent of the unit in the last place: 53 significant bits, and the
  subnormal spacing \<open>2\<^sup>-\<^sup>1\<^sup>0\<^sup>7\<^sup>4\<close> at the bottom.\<close>

definition f64_ulp_exp :: "rat \<Rightarrow> int" where
  "f64_ulp_exp q = max (ilog2 \<bar>q\<bar> - 52) (- 1074)"

text \<open>Round to nearest, ties to even; a result of magnitude \<open>2\<^sup>1\<^sup>0\<^sup>2\<^sup>4\<close> or more overflows.\<close>

definition f64_round :: "rat \<Rightarrow> f64" where
  "f64_round q =
     (if q = 0 then Fin 0
      else let e = f64_ulp_exp q;
               r = of_int (round_half_even (q / 2 powi e)) * 2 powi e
           in if 1024 \<le> ilog2 \<bar>r\<bar> then (if 0 < q then PInf else NInf) else Fin r)"

text \<open>A value of the model is a float64 when rounding leaves it alone.\<close>

definition is_f64 :: "f64 \<Rightarrow> bool" where
  "is_f64 v = (case v of Fin q \<Rightarrow> f64_round q = Fin q | _ \<Rightarrow> True)"

fun f64_neg :: "f64 \<Rightarrow> f64" where
  "f64_neg (Fin a) = Fin (- a)"
| "f64_neg PInf = NInf"
| "f64_neg NInf = PInf"
| "f64_neg NaN = NaN"

fun f64_add :: "f64 \<Rightarrow> f64 \<Rightarrow> f64" where
  "f64_add (Fin a) (Fin b) = f64_round (a + b)"
| "f64_add NaN y = NaN"
| "f64_add x NaN = NaN"
| "f64_add PInf NInf = NaN"
| "f64_add NInf PInf = NaN"
| "f64_add (Fin a) y = y"
| "f64_add x y = x"

definition f64_sub :: "f64 \<Rightarrow> f64 \<Rightarrow> f64" where
  "f64_sub x y = f64_add x (f64_neg y)"

fun f64_mul :: "f64 \<Rightarrow> f64 \<Rightarrow> f64" where
  "f64_mul (Fin a) (Fin b) = f64_round (a * b)"
| "f64_mul NaN y = NaN"
| "f64_mul x NaN = NaN"
| "f64_mul (Fin a) y = (if a = 0 then NaN else if 0 < a then y else f64_neg y)"
| "f64_mul x (Fin b) = (if b = 0 then NaN else if 0 < b then x else f64_neg x)"
| "f64_mul PInf y = y"
| "f64_mul NInf y = f64_neg y"

fun f64_div :: "f64 \<Rightarrow> f64 \<Rightarrow> f64" where
  "f64_div (Fin a) (Fin b) =
     (if b = 0 then (if a = 0 then NaN else if 0 < a then PInf else NInf)
      else f64_round (a / b))"
| "f64_div NaN y = NaN"
| "f64_div x NaN = NaN"
| "f64_div (Fin a) y = Fin 0"
| "f64_div x (Fin b) = (if 0 \<le> b then x else f64_neg x)"
| "f64_div x y = NaN"

text \<open>The conversion of a count or an index to float64.\<close>

definition f64_of_nat :: "nat \<Rightarrow> f64" where
  "f64_of_nat n = f64_round (of_nat n)"

section \<open>The pandas and NumPy operations the script calls\<close>

text \<open>
  A \<^verbatim>\<open>DataFrame\<close> as \<^verbatim>\<open>pd.read_csv\<close> returns it: a row index of \<open>index_len\<close> entries and
  the named columns in file order. Only numeric frames are modelled; a marker column
  holding text makes \<^verbatim>\<open>np.mean\<close> raise a type error, which is outside this model.
  In a well-formed frame every column has one float64 per index entry.
\<close>

record dataframe =
  index_len :: nat
  columns :: "(string \<times> f64 list) list"

definition wf_df :: "dataframe \<Rightarrow> bool" where
  "wf_df df = (\<forall>(name, col) \<in> set (columns df). length col = index_len df \<and> list_all is_f64 col)"

text \<open>\<^verbatim>\<open>df.filter(like=s)\<close> keeps the columns whose label satisfies \<^verbatim>\<open>s in label\<close>, in
  their order, and keeps the row index.\<close>

definition filter_like :: "string \<Rightarrow> dataframe \<Rightarrow> dataframe" where
  "filter_like like df = df\<lparr>columns := filter (\<lambda>(name, col). sublist like name) (columns df)\<rparr>"

text \<open>A two-dimensional array is the list of its rows. \<^verbatim>\<open>df.values\<close> has one row per index
  entry, also when no column is left.\<close>

type_synonym matrix = "f64 list list"

definition df_values :: "dataframe \<Rightarrow> matrix" where
  "df_values df = map (\<lambda>i. map (\<lambda>(name, col). col ! i) (columns df)) [0..<index_len df]"

definition df_shape :: "dataframe \<Rightarrow> nat \<times> nat" where
  "df_shape df = (index_len df, length (columns df))"

text \<open>
  \<^verbatim>\<open>np.mean(a, axis=1)\<close> is \<^verbatim>\<open>np.add.reduce(a, axis=1)\<close> divided by the number of columns.
  Over no element the reduction is \<open>0.0\<close>, and \<open>0.0 / 0\<close> is NaN (NumPy warns and goes on).
  Here the reduction starts from the first element of the row and adds the others in
  turn. NumPy's own order depends on how the array lies in memory: for a row that is
  contiguous it adds the first element to the sum of the others, and it sums eight or
  more of them pairwise in blocks. No statement below depends on the order: where the
  value of a mean is given, every partial sum is free of rounding in every order, or the
  row has at most two channels, or it has three channels whose sum is the same in both
  orders; the one inequality between two means holds in both orders.
\<close>

definition sum_row :: "f64 list \<Rightarrow> f64" where
  "sum_row row = (case row of [] \<Rightarrow> Fin 0 | x # xs \<Rightarrow> foldl f64_add x xs)"

definition mean_row :: "f64 list \<Rightarrow> f64" where
  "mean_row row = f64_div (sum_row row) (f64_of_nat (length row))"

definition mean_axis1 :: "matrix \<Rightarrow> f64 list" where
  "mean_axis1 a = map mean_row a"

text \<open>
  \<^verbatim>\<open>np.linspace(start, stop, num)\<close> with the default \<^verbatim>\<open>endpoint=True\<close>:
  \<^verbatim>\<open>
  div = num - 1
  delta = stop - start
  y = arange(0, num)
  if div > 0:
      step = delta / div
      if step == 0: y /= div; y *= delta
      else:         y *= step
  else:
      y = y * delta
  y += start
  if num > 1: y[-1] = stop
  \<close>
\<close>

definition linspace :: "f64 \<Rightarrow> f64 \<Rightarrow> nat \<Rightarrow> f64 list" where
  "linspace start stop num =
     (let dv = int num - 1;
          delta = f64_sub stop start;
          y0 = map f64_of_nat [0..<num];
          y1 = (if 0 < dv
                then (let step = f64_div delta (f64_of_nat (nat dv))
                      in if step = Fin 0
                         then map (\<lambda>v. f64_mul (f64_div v (f64_of_nat (nat dv))) delta) y0
                         else map (\<lambda>v. f64_mul v step) y0)
                else map (\<lambda>v. f64_mul v delta) y0);
          y2 = map (\<lambda>v. f64_add v start) y1
      in if 1 < num then y2[num - 1 := stop] else y2)"

text \<open>Elementwise arithmetic on one-dimensional arrays, with NumPy's broadcasting of a
  one-element operand; any other length mismatch raises \<^verbatim>\<open>ValueError\<close>.\<close>

datatype 'e error = FileNotFoundError string | ReadCsvError 'e | ValueError | PyplotError 'e

definition np_binop :: "(f64 \<Rightarrow> f64 \<Rightarrow> f64) \<Rightarrow> f64 list \<Rightarrow> f64 list \<Rightarrow> 'e error + f64 list" where
  "np_binop f xs ys =
     (if length xs = length ys then Inr (map2 f xs ys)
      else if length xs = 1 then Inr (map (f (hd xs)) ys)
      else if length ys = 1 then Inr (map (\<lambda>x. f x (hd ys)) xs)
      else Inl ValueError)"

section \<open>The script\<close>

text \<open>
  The file system maps a path to the content of the file there, if there is one.
  \<^verbatim>\<open>pd.read_csv\<close> is a parameter: it returns a frame or the exception it raises.
  What the script does to the outside world is logged in order.
\<close>

datatype event =
    Exists string
  | ReadCsv string
  | PrintParsed string "nat \<times> nat" "nat \<times> nat"
  | SaveFig string nat
  | Show

definition basename :: "string \<Rightarrow> string" where
  "basename p = rev (takeWhile (\<lambda>c. c \<noteq> CHR ''/'') (rev p))"

definition parse_hrf_csv ::
  "(string \<Rightarrow> 'e + dataframe) \<Rightarrow> (string \<Rightarrow> string option) \<Rightarrow> string
     \<Rightarrow> ('e error + matrix \<times> matrix) \<times> event list" where
  "parse_hrf_csv read_csv fs file_path =
     (case fs file_path of
        None \<Rightarrow> (Inl (FileNotFoundError (''Error: File not found at '' @ file_path)),
                 [Exists file_path])
      | Some content \<Rightarrow>
          (case read_csv content of
             Inl e \<Rightarrow> (Inl (ReadCsvError e), [Exists file_path, ReadCsv file_path])
           | Inr df \<Rightarrow>
               (let df_ts = filter_like ''ts_ch'' df;
                    df_std = filter_like ''std_ch'' df;
                    ts_array = df_values df_ts;
                    std_array = df_values df_std
                in (Inr (ts_array, std_array),
                    [Exists file_path, ReadCsv file_path,
                     PrintParsed (basename file_path) (df_shape df_ts) (df_shape df_std)]))))"

text \<open>
  The arrays live in a store, addressed by position; a new array is appended.
  \<^verbatim>\<open>ts_mean - std\<close> and \<^verbatim>\<open>ts_mean + std\<close> allocate their results; the
  \<^verbatim>\<open>matplotlib.pyplot\<close> calls read their arguments and add to the current figure.
  The two labels with TeX markup are written in plain letters.
\<close>

type_synonym store = "f64 list list"

definition alloc :: "store \<Rightarrow> f64 list \<Rightarrow> store \<times> nat" where
  "alloc h a = (h @ [a], length h)"

datatype plt_cmd =
    Figure "nat \<times> nat"
  | FillBetween "f64 list" "f64 list" "f64 list" string string
  | Plot "f64 list" "f64 list" string string
  | Ylim "f64 \<times> f64"
  | Axhline f64 string
  | Title string
  | Xlabel string
  | Ylabel string
  | Legend
  | TickParams string
  | TightLayout

text \<open>
  A pyplot call can raise: \<^verbatim>\<open>plt.savefig\<close> when the directory of the path does not
  exist, \<^verbatim>\<open>plt.fill_between\<close> on arrays it cannot draw, \<^verbatim>\<open>plt.show\<close> without a display.
  pyplot is therefore a parameter \<open>plt\<close>, which tells for every call the exception it
  raises, if any. The calls are made in order; the first exception ends the function, and
  a figure that was saved or shown before it stays in the log.
\<close>

datatype plt_call = Draw plt_cmd | Savefig string nat | ShowFigure

definition event_of :: "plt_call \<Rightarrow> event list" where
  "event_of c = (case c of Draw d \<Rightarrow> [] | Savefig p dpi \<Rightarrow> [SaveFig p dpi] | ShowFigure \<Rightarrow> [Show])"

fun pyplot_calls :: "(plt_call \<Rightarrow> 'e option) \<Rightarrow> plt_call list \<Rightarrow> 'e option \<times> event list" where
  "pyplot_calls plt [] = (None, [])"
| "pyplot_calls plt (c # cs) =
     (case plt c of
        Some e \<Rightarrow> (Some e, [])
      | None \<Rightarrow> (case pyplot_calls plt cs of (r, ev) \<Rightarrow> (r, event_of c @ ev)))"

definition MEAN_COLOR :: string where
  "MEAN_COLOR = ''#000000''"

definition FILL_COLOR :: string where
  "FILL_COLOR = ''#A6CEE3''"

text \<open>Lines 57 to 94 of \<^verbatim>\<open>disp_avg_HRF\<close>.\<close>

definition render ::
  "(plt_call \<Rightarrow> 'e option) \<Rightarrow> store \<Rightarrow> nat \<Rightarrow> nat \<Rightarrow> nat \<Rightarrow> string \<Rightarrow> string option \<Rightarrow> bool
     \<Rightarrow> (f64 \<times> f64) option \<Rightarrow> ('e error + store \<times> plt_cmd list) \<times> event list" where
  "render plt h t ts_mean std title filepath_fig show y_lim =
     (case plt (Draw (Figure (8, 5))) of
        Some e \<Rightarrow> (Inl (PyplotError e), [])
      | None \<Rightarrow>
          (case np_binop f64_sub (h ! ts_mean) (h ! std) of
             Inl e \<Rightarrow> (Inl e, [])
           | Inr lower \<Rightarrow>
               (let (h1, a_lower) = alloc h lower
                in case np_binop f64_add (h1 ! ts_mean) (h1 ! std) of
                     Inl e \<Rightarrow> (Inl e, [])
                   | Inr upper \<Rightarrow>
                       (let (h2, a_upper) = alloc h1 upper;
                            drawing = [FillBetween (h2 ! t) (h2 ! a_lower) (h2 ! a_upper)
                                         FILL_COLOR ''Mean +/- 1 SD'',
                                       Plot (h2 ! t) (h2 ! ts_mean) MEAN_COLOR ''Mean HRF'']
                                      @ (case y_lim of None \<Rightarrow> [] | Some l \<Rightarrow> [Ylim l])
                                      @ [Axhline (Fin 0) ''gray'',
                                         Title title,
                                         Xlabel ''Time (s)'',
                                         Ylabel ''Concentration Change (uM)'',
                                         Legend,
                                         TickParams ''in'',
                                         TightLayout];
                            saving = (case filepath_fig of
                                        None \<Rightarrow> []
                                      | Some p \<Rightarrow> if p = [] then [] else [Savefig p 300]);
                            showing = (if show then [ShowFigure] else [])
                        in case pyplot_calls plt (map Draw drawing @ saving @ showing) of
                             (Some e, ev) \<Rightarrow> (Inl (PyplotError e), ev)
                           | (None, ev) \<Rightarrow> (Inr (h2, Figure (8, 5) # drawing), ev)))))"

text \<open>The local variables \<^verbatim>\<open>t\<close>, \<^verbatim>\<open>ts_mean\<close> and \<^verbatim>\<open>std_avg_across_channels\<close> of
  \<^verbatim>\<open>disp_avg_HRF\<close>, and with them the figure it drew when it returns.\<close>

record traces =
  t_axis :: "f64 list"
  ts_mean_vec :: "f64 list"
  std_avg_across_channels :: "f64 list"

record disp_result = traces +
  figure :: "plt_cmd list"

text \<open>Lines 41 to 51 of \<^verbatim>\<open>disp_avg_HRF\<close>: what it has computed when it reaches the first
  pyplot call.\<close>

definition reduce_traces ::
  "(string \<Rightarrow> 'e + dataframe) \<Rightarrow> (string \<Rightarrow> string option) \<Rightarrow> string
     \<Rightarrow> ('e error + traces) \<times> event list" where
  "reduce_traces read_csv fs filepath =
     (case parse_hrf_csv read_csv fs filepath of
        (Inl e, ev) \<Rightarrow> (Inl e, ev)
      | (Inr (ts, std), ev) \<Rightarrow>
          (let ts_mean = mean_axis1 ts;
               std_avg = mean_axis1 std;
               num_timepoints = length ts;
               t = linspace (Fin 0) (Fin 20) num_timepoints
           in (Inr \<lparr>t_axis = t, ts_mean_vec = ts_mean, std_avg_across_channels = std_avg\<rparr>,
               ev)))"

definition disp_avg_HRF ::
  "(plt_call \<Rightarrow> 'e option) \<Rightarrow> (string \<Rightarrow> 'e + dataframe) \<Rightarrow> (string \<Rightarrow> string option)
     \<Rightarrow> string \<Rightarrow> string \<Rightarrow> string option \<Rightarrow> bool \<Rightarrow> (f64 \<times> f64) option
     \<Rightarrow> ('e error + disp_result) \<times> event list" where
  "disp_avg_HRF plt read_csv fs filepath title filepath_fig show y_lim =
     (case reduce_traces read_csv fs filepath of
        (Inl e, ev) \<Rightarrow> (Inl e, ev)
      | (Inr tr, ev) \<Rightarrow>
          (let h = [t_axis tr, ts_mean_vec tr, std_avg_across_channels tr]
           in case render plt h 0 1 2 title filepath_fig show y_lim of
                (Inl e, ev') \<Rightarrow> (Inl e, ev @ ev')
              | (Inr (h', fig), ev') \<Rightarrow>
                  (Inr \<lparr>t_axis = h' ! 0, ts_mean_vec = h' ! 1,
                        std_avg_across_channels = h' ! 2, figure = fig\<rparr>,
                   ev @ ev')))"

text \<open>The fixed range every call of the driver loop passes as \<^verbatim>\<open>y_lim\<close>:
  \<^verbatim>\<open>(-4.5e-05, 4.5e-05)\<close>.\<close>

definition UNIVERSAL_Y_SCALE :: "f64 \<times> f64" where
  "UNIVERSAL_Y_SCALE = (f64_neg (f64_round (45 / 1000000)), f64_round (45 / 1000000))"

section \<open>Concrete inputs\<close>

text \<open>A file system with a single file, a reader that returns a given frame, and a
  reader that rejects every content.\<close>

definition one_file :: "string \<Rightarrow> string \<Rightarrow> string option" where
  "one_file path p = (if p = path then Some ''csv'' else None)"

definition reads_as :: "dataframe \<Rightarrow> string \<Rightarrow> string + dataframe" where
  "reads_as df content = Inr df"

definition rejects :: "string \<Rightarrow> string + dataframe" where
  "rejects content = Inl ''ParserError''"

text \<open>A pyplot whose calls all return, and one whose \<^verbatim>\<open>savefig\<close> finds no directory.\<close>

definition no_raise :: "plt_call \<Rightarrow> string option" where
  "no_raise c = None"

definition no_directory :: "plt_call \<Rightarrow> string option" where
  "no_directory c = (case c of Savefig p dpi \<Rightarrow> Some ''FileNotFoundError'' | _ \<Rightarrow> None)"

text \<open>The table of the end-to-end scenario.\<close>

definition scenario_df :: dataframe where
  "scenario_df =
     \<lparr>index_len = 2,
      columns = [(''ts_ch1'', [Fin 1, Fin 3]), (''ts_ch2'', [Fin 1, Fin 5]),
                 (''std_ch1'', [Fin 0, Fin 0]), (''std_ch2'', [Fin 0, Fin 2])]\<rparr>"

text \<open>A table with labels that only resemble the markers, and with more mean columns
  than spread columns.\<close>

definition mixed_df :: dataframe where
  "mixed_df =
     \<lparr>index_len = 2,
      columns = [(''time'', [Fin 0, Fin 1]), (''TS_CH1'', [Fin 7, Fin 7]),
                 (''ts_ch1'', [Fin 1, Fin 2]), (''hbo_ts_ch2'', [Fin 3, Fin 4]),
                 (''Std_ch1'', [Fin 9, Fin 9]), (''std_ch1'', [Fin 5, Fin 6])]\<rparr>"

text \<open>A table without any marker column, and one with spread columns only.\<close>

definition unmarked_df :: dataframe where
  "unmarked_df = \<lparr>index_len = 3, columns = [(''time'', [Fin 0, Fin 1, Fin 2])]\<rparr>"

definition spread_only_df :: dataframe where
  "spread_only_df =
     \<lparr>index_len = 2, columns = [(''std_ch1'', [Fin 0, Fin 0]), (''std_ch2'', [Fin 0, Fin 2])]\<rparr>"

text \<open>A table with a single row.\<close>

definition one_row_df :: dataframe where
  "one_row_df = \<lparr>index_len = 1, columns = [(''ts_ch1'', [Fin 1]), (''std_ch1'', [Fin 0])]\<rparr>"

text \<open>The float64 nearest to one tenth, \<^verbatim>\<open>0.1\<close> in Python.\<close>

definition f64_tenth :: f64 where
  "f64_tenth = Fin (3602879701896397 / 36028797018963968)"

text \<open>A matrix whose second row holds one value in every channel.\<close>

definition equal_rows :: matrix where
  "equal_rows = [[Fin 1, Fin 3, Fin 5], [Fin 3, Fin 3, Fin 3]]"

text \<open>
  A row sums without rounding, in whatever order, when its values are finite and the sum
  of every selection of them is a float64.
\<close>

definition is_fin :: "f64 \<Rightarrow> bool" where
  "is_fin v = (case v of Fin q \<Rightarrow> True | _ \<Rightarrow> False)"

fun the_fin :: "f64 \<Rightarrow> rat" where
  "the_fin (Fin q) = q"
| "the_fin v = 0"

definition all_sums_exact :: "f64 list \<Rightarrow> bool" where
  "all_sums_exact row =
     (list_all is_fin row
      \<and> (\<forall>qs \<in> set (subseqs (map the_fin row)). f64_round (sum_list qs) = Fin (sum_list qs)))"

text \<open>A group of three channels whose values cancel, and the same group with its
  columns in reverse order.\<close>

definition cancelling_df :: dataframe where
  "cancelling_df =
     \<lparr>index_len = 1,
      columns = [(''ts_ch1'', [Fin 9007199254740992]), (''ts_ch2'', [Fin 1]),
                 (''ts_ch3'', [Fin (- 9007199254740992)])]\<rparr>"

definition cancelling_df_reversed :: dataframe where
  "cancelling_df_reversed =
     \<lparr>index_len = 1,
      columns = [(''ts_ch3'', [Fin (- 9007199254740992)]), (''ts_ch2'', [Fin 1]),
                 (''ts_ch1'', [Fin 9007199254740992])]\<rparr>"

text \<open>A group of three channels with small integer values, and a permutation of it.\<close>

definition three_channel_df :: dataframe where
  "three_channel_df =
     \<lparr>index_len = 2,
      columns = [(''ts_ch1'', [Fin 1, Fin 3]), (''ts_ch2'', [Fin 1, Fin 5]),
                 (''ts_ch3'', [Fin 2, Fin 4])]\<rparr>"

definition three_channel_df_permuted :: dataframe where
  "three_channel_df_permuted =
     \<lparr>index_len = 2,
      columns = [(''ts_ch3'', [Fin 2, Fin 4]), (''ts_ch1'', [Fin 1, Fin 3]),
                 (''ts_ch2'', [Fin 1, Fin 5])]\<rparr>"

section \<open>Shapes\<close>

lemma length_df_values: "length (df_values df) = index_len df"
  by (simp add: df_values_def)

lemma row_length_df_values: "row \<in> set (df_values df) \<Longrightarrow> length row = length (columns df)"
  by (auto simp: df_values_def)

lemma length_mean_axis1: "length (mean_axis1 a) = length a"
  by (simp add: mean_axis1_def)

lemma length_linspace: "length (linspace start stop num) = num"
  by (simp add: linspace_def Let_def)

lemma index_len_filter_like: "index_len (filter_like s df) = index_len df"
  by (simp add: filter_like_def)

lemma columns_filter_like:
  "columns (filter_like s df) = [c \<leftarrow> columns df. \<exists>ps ss. fst c = ps @ s @ ss]"
  by (simp add: filter_like_def case_prod_unfold sublist_def)

lemma df_values_no_columns: "columns df = [] \<Longrightarrow> df_values df = replicate (index_len df) []"
  by (simp add: df_values_def map_replicate_const)

section \<open>The loader\<close>

lemma parse_hrf_csv_missing:
  "fs file_path = None \<Longrightarrow>
   parse_hrf_csv read_csv fs file_path =
     (Inl (FileNotFoundError (''Error: File not found at '' @ file_path)), [Exists file_path])"
  by (simp add: parse_hrf_csv_def)

lemma parse_hrf_csv_malformed:
  "fs file_path = Some content \<Longrightarrow> read_csv content = Inl e \<Longrightarrow>
   parse_hrf_csv read_csv fs file_path =
     (Inl (ReadCsvError e), [Exists file_path, ReadCsv file_path])"
  by (simp add: parse_hrf_csv_def)

lemma parse_hrf_csv_loaded:
  "fs file_path = Some content \<Longrightarrow> read_csv content = Inr df \<Longrightarrow>
   parse_hrf_csv read_csv fs file_path =
     (Inr (df_values (filter_like ''ts_ch'' df), df_values (filter_like ''std_ch'' df)),
      [Exists file_path, ReadCsv file_path,
       PrintParsed (basename file_path) (df_shape (filter_like ''ts_ch'' df))
         (df_shape (filter_like ''std_ch'' df))])"
  by (simp add: parse_hrf_csv_def Let_def)

lemma one_file_hit: "one_file path path = Some ''csv''"
  by (simp add: one_file_def)

text \<open>
  C2. When the path does not exist, the loader raises \<^verbatim>\<open>FileNotFoundError\<close> after the
  existence test alone: no read of the file is logged. Malformed content of an existing
  file raises the reader's own exception instead, which is a different error value.
\<close>

theorem missing_file_before_read:
  "fs file_path = None \<Longrightarrow>
   parse_hrf_csv read_csv fs file_path =
     (Inl (FileNotFoundError (''Error: File not found at '' @ file_path)), [Exists file_path])
   \<and> ReadCsv file_path \<notin> set (snd (parse_hrf_csv read_csv fs file_path))
   \<and> (\<forall>p content e. fs p = Some content \<longrightarrow> read_csv content = Inl e \<longrightarrow>
          fst (parse_hrf_csv read_csv fs p) = Inl (ReadCsvError e)
          \<and> fst (parse_hrf_csv read_csv fs p) \<noteq> fst (parse_hrf_csv read_csv fs file_path))"
  by (simp add: parse_hrf_csv_missing parse_hrf_csv_malformed)

theorem missing_file_before_read_witness:
  "parse_hrf_csv rejects (one_file ''bad.csv'') ''gone.csv'' =
     (Inl (FileNotFoundError ''Error: File not found at gone.csv''), [Exists ''gone.csv''])
   \<and> fst (parse_hrf_csv rejects (one_file ''bad.csv'') ''bad.csv'') = Inl (ReadCsvError ''ParserError'')
   \<and> fst (parse_hrf_csv rejects (one_file ''bad.csv'') ''bad.csv'')
       \<noteq> fst (parse_hrf_csv rejects (one_file ''bad.csv'') ''gone.csv'')"
proof -
  have gone: "one_file ''bad.csv'' ''gone.csv'' = None"
    by (simp add: one_file_def)
  have bad: "one_file ''bad.csv'' ''bad.csv'' = Some ''csv''"
    by (simp add: one_file_def)
  have rej: "rejects ''csv'' = Inl ''ParserError''"
    by (simp add: rejects_def)
  from missing_file_before_read[of "one_file ''bad.csv''" "''gone.csv''" rejects, OF gone]
  show ?thesis
    using bad rej by simp
qed

lemma reads_as_loaded: "reads_as df content = Inr df"
  by (simp add: reads_as_def)

lemma mixed_ts: "df_values (filter_like ''ts_ch'' mixed_df) = [[Fin 1, Fin 3], [Fin 2, Fin 4]]"
  by code_simp

lemma mixed_std: "df_values (filter_like ''std_ch'' mixed_df) = [[Fin 5], [Fin 6]]"
  by code_simp

text \<open>
  C10. For a loaded table both returned matrices have one row per table row, whatever
  the two groups match; each row of a matrix is as wide as its group.
\<close>

theorem parse_hrf_csv_row_counts:
  "fs file_path = Some content \<Longrightarrow> read_csv content = Inr df \<Longrightarrow>
   \<exists>ts std ev. parse_hrf_csv read_csv fs file_path = (Inr (ts, std), ev)
     \<and> length ts = index_len df \<and> length std = index_len df
     \<and> (\<forall>row \<in> set ts. length row = length [c \<leftarrow> columns df. \<exists>ps ss. fst c = ps @ ''ts_ch'' @ ss])
     \<and> (\<forall>row \<in> set std. length row = length [c \<leftarrow> columns df. \<exists>ps ss. fst c = ps @ ''std_ch'' @ ss])"
  by (simp add: parse_hrf_csv_loaded length_df_values index_len_filter_like
      row_length_df_values columns_filter_like)

theorem parse_hrf_csv_row_counts_witness:
  "\<exists>ts std ev. parse_hrf_csv (reads_as mixed_df) (one_file ''a.csv'') ''a.csv'' = (Inr (ts, std), ev)
     \<and> length ts = 2 \<and> length std = 2
     \<and> (\<forall>row \<in> set ts. length row = 2) \<and> (\<forall>row \<in> set std. length row = 1)"
proof -
  have n: "index_len mixed_df = 2"
    by (simp add: mixed_df_def)
  have w1: "length (columns (filter_like ''ts_ch'' mixed_df)) = 2"
    by code_simp
  have w2: "length (columns (filter_like ''std_ch'' mixed_df)) = 1"
    by code_simp
  from parse_hrf_csv_row_counts[of "one_file ''a.csv''" "''a.csv''" "''csv''" "reads_as mixed_df" mixed_df,
      OF one_file_hit reads_as_loaded]
  show ?thesis
    using n w1 w2 by (simp add: columns_filter_like)
qed

lemma filter_like_alt:
  "df\<lparr>columns := [c \<leftarrow> columns df. \<exists>ps ss. fst c = ps @ s @ ss]\<rparr> = filter_like s df"
  by (simp add: filter_like_def case_prod_unfold sublist_def)

lemma filter_like_no_match:
  assumes "\<forall>c \<in> set (columns df). \<not> (\<exists>ps ss. fst c = ps @ s @ ss)"
  shows "df_values (filter_like s df) = replicate (index_len df) []"
proof -
  from assms have "columns (filter_like s df) = []"
    by (simp add: columns_filter_like)
  then show ?thesis
    by (simp add: df_values_no_columns index_len_filter_like)
qed

text \<open>
  C4. The loader puts into the mean matrix exactly the columns whose label contains
  \<^verbatim>\<open>ts_ch\<close> and into the spread matrix exactly those whose label contains \<^verbatim>\<open>std_ch\<close>,
  compared character by character, in table order; no other column is used, and a group
  that matches nothing gives a matrix of empty rows without any error.
\<close>

theorem column_splitter_by_substring:
  "fs file_path = Some content \<Longrightarrow> read_csv content = Inr df \<Longrightarrow>
   \<exists>ts std ev. parse_hrf_csv read_csv fs file_path = (Inr (ts, std), ev)
     \<and> ts = df_values (df\<lparr>columns := [c \<leftarrow> columns df. \<exists>ps ss. fst c = ps @ ''ts_ch'' @ ss]\<rparr>)
     \<and> std = df_values (df\<lparr>columns := [c \<leftarrow> columns df. \<exists>ps ss. fst c = ps @ ''std_ch'' @ ss]\<rparr>)
     \<and> ((\<forall>c \<in> set (columns df). \<not> (\<exists>ps ss. fst c = ps @ ''ts_ch'' @ ss))
          \<longrightarrow> ts = replicate (index_len df) [])
     \<and> ((\<forall>c \<in> set (columns df). \<not> (\<exists>ps ss. fst c = ps @ ''std_ch'' @ ss))
          \<longrightarrow> std = replicate (index_len df) [])"
proof -
  assume a: "fs file_path = Some content" "read_csv content = Inr df"
  let ?ts = "df_values (filter_like ''ts_ch'' df)"
  let ?std = "df_values (filter_like ''std_ch'' df)"
  let ?ev = "[Exists file_path, ReadCsv file_path,
       PrintParsed (basename file_path) (df_shape (filter_like ''ts_ch'' df))
         (df_shape (filter_like ''std_ch'' df))]"
  have p: "parse_hrf_csv read_csv fs file_path = (Inr (?ts, ?std), ?ev)"
    by (rule parse_hrf_csv_loaded[of fs file_path content read_csv df, OF a])
  have t: "?ts = df_values (df\<lparr>columns := [c \<leftarrow> columns df. \<exists>ps ss. fst c = ps @ ''ts_ch'' @ ss]\<rparr>)"
    by (simp only: filter_like_alt)
  have s: "?std = df_values (df\<lparr>columns := [c \<leftarrow> columns df. \<exists>ps ss. fst c = ps @ ''std_ch'' @ ss]\<rparr>)"
    by (simp only: filter_like_alt)
  have zt: "(\<forall>c \<in> set (columns df). \<not> (\<exists>ps ss. fst c = ps @ ''ts_ch'' @ ss))
          \<longrightarrow> ?ts = replicate (index_len df) []"
    by (intro impI filter_like_no_match)
  have zs: "(\<forall>c \<in> set (columns df). \<not> (\<exists>ps ss. fst c = ps @ ''std_ch'' @ ss))
          \<longrightarrow> ?std = replicate (index_len df) []"
    by (intro impI filter_like_no_match)
  show ?thesis
    by (rule exI[of _ "?ts"], rule exI[of _ "?std"], rule exI[of _ "?ev"])
      (intro conjI p t s zt zs)
qed

lemma unmarked_no_match:
  "\<forall>c \<in> set (columns unmarked_df). \<not> (\<exists>ps ss. fst c = ps @ ''ts_ch'' @ ss)"
  "\<forall>c \<in> set (columns unmarked_df). \<not> (\<exists>ps ss. fst c = ps @ ''std_ch'' @ ss)"
proof -
  have "\<not> sublist ''ts_ch'' ''time''" "\<not> sublist ''std_ch'' ''time''"
    by code_simp+
  then show "\<forall>c \<in> set (columns unmarked_df). \<not> (\<exists>ps ss. fst c = ps @ ''ts_ch'' @ ss)"
    "\<forall>c \<in> set (columns unmarked_df). \<not> (\<exists>ps ss. fst c = ps @ ''std_ch'' @ ss)"
    unfolding sublist_def unmarked_df_def by simp_all
qed

theorem column_splitter_by_substring_witness:
  "fst (parse_hrf_csv (reads_as mixed_df) (one_file ''a.csv'') ''a.csv'') =
     Inr ([[Fin 1, Fin 3], [Fin 2, Fin 4]], [[Fin 5], [Fin 6]])
   \<and> fst (parse_hrf_csv (reads_as unmarked_df) (one_file ''a.csv'') ''a.csv'') =
     Inr ([[], [], []], [[], [], []])"
proof -
  from column_splitter_by_substring[of "one_file ''a.csv''" "''a.csv''" "''csv''"
      "reads_as mixed_df" mixed_df, OF one_file_hit reads_as_loaded]
  have "fst (parse_hrf_csv (reads_as mixed_df) (one_file ''a.csv'') ''a.csv'') =
     Inr (df_values (filter_like ''ts_ch'' mixed_df), df_values (filter_like ''std_ch'' mixed_df))"
    by (elim exE conjE) (simp only: filter_like_alt fst_conv)
  then have 1: "fst (parse_hrf_csv (reads_as mixed_df) (one_file ''a.csv'') ''a.csv'') =
     Inr ([[Fin 1, Fin 3], [Fin 2, Fin 4]], [[Fin 5], [Fin 6]])"
    by (simp only: mixed_ts mixed_std)
  from column_splitter_by_substring[of "one_file ''a.csv''" "''a.csv''" "''csv''"
      "reads_as unmarked_df" unmarked_df, OF one_file_hit reads_as_loaded]
  obtain ts std ev where
    p: "parse_hrf_csv (reads_as unmarked_df) (one_file ''a.csv'') ''a.csv'' = (Inr (ts, std), ev)"
    and zt: "(\<forall>c \<in> set (columns unmarked_df). \<not> (\<exists>ps ss. fst c = ps @ ''ts_ch'' @ ss))
          \<longrightarrow> ts = replicate (index_len unmarked_df) []"
    and zs: "(\<forall>c \<in> set (columns unmarked_df). \<not> (\<exists>ps ss. fst c = ps @ ''std_ch'' @ ss))
          \<longrightarrow> std = replicate (index_len unmarked_df) []"
    by blast
  from zt zs unmarked_no_match have "ts = replicate (index_len unmarked_df) []"
    "std = replicate (index_len unmarked_df) []"
    by blast+
  then have "ts = [[], [], []]" "std = [[], [], []]"
    by (simp_all add: unmarked_df_def numeral_3_eq_3)
  with p have 2: "fst (parse_hrf_csv (reads_as unmarked_df) (one_file ''a.csv'') ''a.csv'') =
     Inr ([[], [], []], [[], [], []])"
    by simp
  from 1 2 show ?thesis
    by (rule conjI)
qed

section \<open>The reduction and the figure\<close>

lemma np_binop_same_length:
  "length xs = length ys \<Longrightarrow> np_binop f xs ys = Inr (map2 f xs ys)"
  by (simp add: np_binop_def)

lemma mean_row_empty: "mean_row [] = NaN"
  by (simp add: mean_row_def sum_row_def f64_of_nat_def f64_round_def)

lemma mean_axis1_empty_rows: "mean_axis1 (replicate n []) = replicate n NaN"
  by (simp add: mean_axis1_def mean_row_empty)

lemma reduce_traces_loaded:
  assumes "fs filepath = Some content" "read_csv content = Inr df"
  shows "\<exists>ev. reduce_traces read_csv fs filepath =
     (Inr \<lparr>t_axis = linspace (Fin 0) (Fin 20) (index_len df),
           ts_mean_vec = mean_axis1 (df_values (filter_like ''ts_ch'' df)),
           std_avg_across_channels = mean_axis1 (df_values (filter_like ''std_ch'' df))\<rparr>, ev)"
  by (simp add: reduce_traces_def parse_hrf_csv_loaded[of fs filepath content read_csv df, OF assms]
      Let_def length_df_values index_len_filter_like)

lemma pyplot_calls_raised: "pyplot_calls plt cs = (Some x, ev) \<Longrightarrow> \<exists>c. plt c = Some x"
  by (induction cs arbitrary: ev) (auto split: option.splits prod.splits)

lemma render_appends:
  "render plt h t m s title filepath_fig show y_lim = (Inr (h', fig), ev) \<Longrightarrow>
   \<exists>lower upper. h' = h @ [lower, upper]"
  by (auto simp: render_def alloc_def Let_def split: option.splits sum.splits prod.splits)

lemma render_raised:
  assumes "render plt h t m s title filepath_fig show y_lim = (Inl e, ev)"
    and "length (h ! m) = length (h ! s)" "m < length h" "s < length h"
  shows "\<exists>c x. plt c = Some x \<and> e = PyplotError x"
  using assms
  by (auto simp: render_def alloc_def Let_def np_binop_same_length nth_append
      simp del: pyplot_calls.simps
      split: option.splits sum.splits prod.splits dest: pyplot_calls_raised)

lemma render_outcome:
  assumes "length (h ! m) = length (h ! s)" "m < length h" "s < length h"
  shows "(\<exists>h' fig ev. render plt h t m s title filepath_fig show y_lim = (Inr (h', fig), ev))
       \<or> (\<exists>c x ev. plt c = Some x
             \<and> render plt h t m s title filepath_fig show y_lim = (Inl (PyplotError x), ev))"
proof (cases "render plt h t m s title filepath_fig show y_lim")
  case (Pair res ev)
  show ?thesis
  proof (cases res)
    case (Inl e)
    with Pair render_raised[OF _ assms, of plt t title filepath_fig "show" y_lim e ev]
    show ?thesis
      by auto
  next
    case (Inr hf)
    with Pair show ?thesis
      by (cases hf) auto
  qed
qed

text \<open>
  A loaded table is reduced to its traces. After that \<^verbatim>\<open>disp_avg_HRF\<close> either returns
  with these traces or ends with the exception of a pyplot call.
\<close>

lemma pipeline_outcome:
  assumes "fs filepath = Some content" "read_csv content = Inr df"
  defines "tr \<equiv> \<lparr>t_axis = linspace (Fin 0) (Fin 20) (index_len df),
           ts_mean_vec = mean_axis1 (df_values (filter_like ''ts_ch'' df)),
           std_avg_across_channels = mean_axis1 (df_values (filter_like ''std_ch'' df))\<rparr>"
  shows "\<exists>ev. reduce_traces read_csv fs filepath = (Inr tr, ev)"
    and "(\<exists>r ev. disp_avg_HRF plt read_csv fs filepath title filepath_fig show y_lim = (Inr r, ev)
            \<and> t_axis r = t_axis tr \<and> ts_mean_vec r = ts_mean_vec tr
            \<and> std_avg_across_channels r = std_avg_across_channels tr)
       \<or> (\<exists>c x ev. plt c = Some x
            \<and> disp_avg_HRF plt read_csv fs filepath title filepath_fig show y_lim
                = (Inl (PyplotError x), ev))"
proof -
  from reduce_traces_loaded[of fs filepath content read_csv df, OF assms(1,2)] obtain ev0 where
    red: "reduce_traces read_csv fs filepath = (Inr tr, ev0)"
    unfolding tr_def by blast
  then show "\<exists>ev. reduce_traces read_csv fs filepath = (Inr tr, ev)"
    by blast
  let ?h = "[t_axis tr, ts_mean_vec tr, std_avg_across_channels tr]"
  have l: "length (?h ! 1) = length (?h ! 2)" "1 < length ?h" "2 < length ?h"
    by (simp_all add: tr_def length_mean_axis1 length_df_values index_len_filter_like)
  from render_outcome[OF l, of plt 0 title filepath_fig "show" y_lim]
  show "(\<exists>r ev. disp_avg_HRF plt read_csv fs filepath title filepath_fig show y_lim = (Inr r, ev)
            \<and> t_axis r = t_axis tr \<and> ts_mean_vec r = ts_mean_vec tr
            \<and> std_avg_across_channels r = std_avg_across_channels tr)
       \<or> (\<exists>c x ev. plt c = Some x
            \<and> disp_avg_HRF plt read_csv fs filepath title filepath_fig show y_lim
                = (Inl (PyplotError x), ev))"
  proof
    assume "\<exists>h' fig ev. render plt ?h 0 1 2 title filepath_fig show y_lim = (Inr (h', fig), ev)"
    then obtain h' fig ev where
      r: "render plt ?h 0 1 2 title filepath_fig show y_lim = (Inr (h', fig), ev)"
      by blast
    from render_appends[OF r] obtain lower upper where "h' = ?h @ [lower, upper]"
      by blast
    with r red show ?thesis
      by (intro disjI1) (simp add: disp_avg_HRF_def)
  next
    assume "\<exists>c x ev. plt c = Some x
      \<and> render plt ?h 0 1 2 title filepath_fig show y_lim = (Inl (PyplotError x), ev)"
    with red show ?thesis
      by (intro disjI2) (auto simp: disp_avg_HRF_def)
  qed
qed

text \<open>
  C9. Rendering reads the time axis, the mean trace and the spread trace and leaves
  them as they were: the store after rendering holds every array it held before,
  unchanged, whatever the y-axis range, the output path and the display flag.
\<close>

theorem render_leaves_data_unchanged:
  "render plt h t m s title filepath_fig show y_lim = (Inr (h', fig), ev) \<Longrightarrow>
   t < length h \<Longrightarrow> m < length h \<Longrightarrow> s < length h \<Longrightarrow>
   h' ! t = h ! t \<and> h' ! m = h ! m \<and> h' ! s = h ! s \<and> (\<forall>a < length h. h' ! a = h ! a)"
proof -
  assume "render plt h t m s title filepath_fig show y_lim = (Inr (h', fig), ev)"
  then obtain lower upper where "h' = h @ [lower, upper]"
    using render_appends by blast
  moreover assume "t < length h" "m < length h" "s < length h"
  ultimately show ?thesis
    by (simp add: nth_append)
qed

theorem render_leaves_data_unchanged_witness:
  "\<exists>h' fig ev.
     render no_raise [[Fin 0, Fin 20], [Fin 1, Fin 4], [Fin 0, Fin 1]] 0 1 2 ''Before NO - HbO''
        (Some ''before_hrf_hbo.png'') True (Some UNIVERSAL_Y_SCALE) = (Inr (h', fig), ev)
     \<and> h' ! 0 = [Fin 0, Fin 20] \<and> h' ! 1 = [Fin 1, Fin 4] \<and> h' ! 2 = [Fin 0, Fin 1]
     \<and> ev = [SaveFig ''before_hrf_hbo.png'' 300, Show]"
proof -
  let ?h = "[[Fin 0, Fin 20], [Fin 1, Fin 4], [Fin 0, Fin 1]]"
  obtain h' fig where r:
    "render no_raise ?h 0 1 2 ''Before NO - HbO'' (Some ''before_hrf_hbo.png'') True
        (Some UNIVERSAL_Y_SCALE) = (Inr (h', fig), [SaveFig ''before_hrf_hbo.png'' 300, Show])"
    by (simp add: render_def alloc_def Let_def np_binop_same_length no_raise_def event_of_def)
  from render_leaves_data_unchanged[OF r] have
    "h' ! 0 = ?h ! 0 \<and> h' ! 1 = ?h ! 1 \<and> h' ! 2 = ?h ! 2"
    by simp
  with r show ?thesis
    by simp
qed

lemma scenario_ts: "mean_axis1 (df_values (filter_like ''ts_ch'' scenario_df)) = [Fin 1, Fin 4]"
  by code_simp

lemma scenario_std: "mean_axis1 (df_values (filter_like ''std_ch'' scenario_df)) = [Fin 0, Fin 1]"
  by code_simp

lemma linspace_2: "linspace (Fin 0) (Fin 20) 2 = [Fin 0, Fin 20]"
  by code_simp

lemma scenario_wf: "wf_df scenario_df"
  by code_simp

text \<open>
  C1. For the table with the columns \<open>ts_ch1 = [1, 3]\<close>, \<open>ts_ch2 = [1, 5]\<close>,
  \<open>std_ch1 = [0, 0]\<close> and \<open>std_ch2 = [0, 2]\<close> the pipeline computes the mean trace
  \<open>[1, 4]\<close>, the spread trace \<open>[0, 1]\<close> and the time axis \<open>[0, 20]\<close>. These are the
  traces \<^verbatim>\<open>disp_avg_HRF\<close> returns with, unless a pyplot call raises.
\<close>

theorem end_to_end_scenario:
  "fs filepath = Some content \<Longrightarrow> read_csv content = Inr scenario_df \<Longrightarrow>
   \<exists>tr ev. reduce_traces read_csv fs filepath = (Inr tr, ev)
     \<and> ts_mean_vec tr = [Fin 1, Fin 4]
     \<and> std_avg_across_channels tr = [Fin 0, Fin 1]
     \<and> t_axis tr = [Fin 0, Fin 20]
     \<and> ((\<exists>r ev'. disp_avg_HRF plt read_csv fs filepath title filepath_fig show y_lim = (Inr r, ev')
            \<and> t_axis r = t_axis tr \<and> ts_mean_vec r = ts_mean_vec tr
            \<and> std_avg_across_channels r = std_avg_across_channels tr)
        \<or> (\<exists>c x ev'. plt c = Some x
            \<and> disp_avg_HRF plt read_csv fs filepath title filepath_fig show y_lim
                = (Inl (PyplotError x), ev')))"
proof -
  assume a: "fs filepath = Some content" "read_csv content = Inr scenario_df"
  define tr where "tr = \<lparr>t_axis = linspace (Fin 0) (Fin 20) (index_len scenario_df),
      ts_mean_vec = mean_axis1 (df_values (filter_like ''ts_ch'' scenario_df)),
      std_avg_across_channels = mean_axis1 (df_values (filter_like ''std_ch'' scenario_df))\<rparr>"
  from pipeline_outcome(1)[of fs filepath content read_csv scenario_df, OF a]
  obtain ev where r: "reduce_traces read_csv fs filepath = (Inr tr, ev)"
    unfolding tr_def by blast
  note out = pipeline_outcome(2)[of fs filepath content read_csv scenario_df plt title filepath_fig
      "show" y_lim, OF a, folded tr_def]
  have n: "index_len scenario_df = 2"
    by (simp add: scenario_df_def)
  have v: "ts_mean_vec tr = [Fin 1, Fin 4]" "std_avg_across_channels tr = [Fin 0, Fin 1]"
    "t_axis tr = [Fin 0, Fin 20]"
    by (simp_all add: tr_def scenario_ts scenario_std n linspace_2)
  show ?thesis
    by (rule exI[of _ tr], rule exI[of _ ev]) (intro conjI r v out)
qed

theorem end_to_end_scenario_witness:
  "\<exists>r ev. disp_avg_HRF no_raise (reads_as scenario_df) (one_file ''before_hrf_hbo.csv'')
       ''before_hrf_hbo.csv'' ''Before NO - HbO'' (Some ''before_hrf_hbo.png'') True
       (Some UNIVERSAL_Y_SCALE) = (Inr r, ev)
     \<and> ts_mean_vec r = [Fin 1, Fin 4]
     \<and> std_avg_across_channels r = [Fin 0, Fin 1]
     \<and> t_axis r = [Fin 0, Fin 20]"
proof -
  from end_to_end_scenario[of "one_file ''before_hrf_hbo.csv''" "''before_hrf_hbo.csv''"
      "''csv''" "reads_as scenario_df" no_raise "''Before NO - HbO''"
      "Some ''before_hrf_hbo.png''" True "Some UNIVERSAL_Y_SCALE",
      OF one_file_hit reads_as_loaded]
  show ?thesis
    by (auto simp: no_raise_def)
qed

text \<open>
  C3. For a well-formed table with as many mean columns as spread columns, and at
  least one of each, the mean trace and the spread trace both have one entry per table
  row. These are the traces \<^verbatim>\<open>disp_avg_HRF\<close> returns with, unless a pyplot call raises.
\<close>

theorem reducer_output_lengths:
  "fs filepath = Some content \<Longrightarrow> read_csv content = Inr df \<Longrightarrow> wf_df df \<Longrightarrow>
   length [c \<leftarrow> columns df. \<exists>ps ss. fst c = ps @ ''ts_ch'' @ ss]
     = length [c \<leftarrow> columns df. \<exists>ps ss. fst c = ps @ ''std_ch'' @ ss] \<Longrightarrow>
   0 < length [c \<leftarrow> columns df. \<exists>ps ss. fst c = ps @ ''ts_ch'' @ ss] \<Longrightarrow>
   \<exists>tr ev. reduce_traces read_csv fs filepath = (Inr tr, ev)
     \<and> length (ts_mean_vec tr) = index_len df
     \<and> length (std_avg_across_channels tr) = index_len df
     \<and> ((\<exists>r ev'. disp_avg_HRF plt read_csv fs filepath title filepath_fig show y_lim = (Inr r, ev')
            \<and> t_axis r = t_axis tr \<and> ts_mean_vec r = ts_mean_vec tr
            \<and> std_avg_across_channels r = std_avg_across_channels tr)
        \<or> (\<exists>c x ev'. plt c = Some x
            \<and> disp_avg_HRF plt read_csv fs filepath title filepath_fig show y_lim
                = (Inl (PyplotError x), ev')))"
proof -
  assume a: "fs filepath = Some content" "read_csv content = Inr df"
  define tr where "tr = \<lparr>t_axis = linspace (Fin 0) (Fin 20) (index_len df),
      ts_mean_vec = mean_axis1 (df_values (filter_like ''ts_ch'' df)),
      std_avg_across_channels = mean_axis1 (df_values (filter_like ''std_ch'' df))\<rparr>"
  from pipeline_outcome(1)[of fs filepath content read_csv df, OF a]
  obtain ev where r: "reduce_traces read_csv fs filepath = (Inr tr, ev)"
    unfolding tr_def by blast
  note out = pipeline_outcome(2)[of fs filepath content read_csv df plt title filepath_fig
      "show" y_lim, OF a, folded tr_def]
  have l: "length (ts_mean_vec tr) = index_len df"
    "length (std_avg_across_channels tr) = index_len df"
    by (simp_all add: tr_def length_mean_axis1 length_df_values index_len_filter_like)
  show ?thesis
    by (rule exI[of _ tr], rule exI[of _ ev]) (intro conjI r l out)
qed

lemma scenario_counts:
  "length [c \<leftarrow> columns scenario_df. \<exists>ps ss. fst c = ps @ ''ts_ch'' @ ss] = 2"
  "length [c \<leftarrow> columns scenario_df. \<exists>ps ss. fst c = ps @ ''std_ch'' @ ss] = 2"
proof -
  have "length (columns (filter_like ''ts_ch'' scenario_df)) = 2"
    "length (columns (filter_like ''std_ch'' scenario_df)) = 2"
    by code_simp+
  then show "length [c \<leftarrow> columns scenario_df. \<exists>ps ss. fst c = ps @ ''ts_ch'' @ ss] = 2"
    "length [c \<leftarrow> columns scenario_df. \<exists>ps ss. fst c = ps @ ''std_ch'' @ ss] = 2"
    by (simp_all only: columns_filter_like)
qed

theorem reducer_output_lengths_witness:
  "\<exists>r ev. disp_avg_HRF no_raise (reads_as scenario_df) (one_file ''a.csv'') ''a.csv''
       ''HRF Data'' None True None = (Inr r, ev)
     \<and> length (ts_mean_vec r) = 2 \<and> length (std_avg_across_channels r) = 2"
proof -
  have n: "index_len scenario_df = 2"
    by (simp add: scenario_df_def)
  have eq: "length [c \<leftarrow> columns scenario_df. \<exists>ps ss. fst c = ps @ ''ts_ch'' @ ss]
     = length [c \<leftarrow> columns scenario_df. \<exists>ps ss. fst c = ps @ ''std_ch'' @ ss]"
    by (simp only: scenario_counts)
  have pos: "0 < length [c \<leftarrow> columns scenario_df. \<exists>ps ss. fst c = ps @ ''ts_ch'' @ ss]"
    by (simp only: scenario_counts)
  from reducer_output_lengths[of "one_file ''a.csv''" "''a.csv''" "''csv''"
      "reads_as scenario_df" scenario_df no_raise "''HRF Data''" None True None,
      OF one_file_hit reads_as_loaded scenario_wf eq pos]
  show ?thesis
    unfolding n by (auto simp: no_raise_def)
qed

lemma spread_only_ts:
  "mean_axis1 (df_values (filter_like ''ts_ch'' spread_only_df)) = [NaN, NaN]"
  by code_simp

text \<open>
  C8 (as stated, refuted). A table without any mean column is not rejected: the
  reduction gives a mean trace of NaN, and with a pyplot whose calls return the pipeline
  returns normally with it.
\<close>

theorem zero_width_group_not_rejected:
  "\<not> isl (fst (reduce_traces (reads_as spread_only_df) (one_file ''a.csv'') ''a.csv''))
   \<and> ts_mean_vec (projr (fst (reduce_traces (reads_as spread_only_df) (one_file ''a.csv'')
             ''a.csv''))) = [NaN, NaN]
   \<and> \<not> isl (fst (disp_avg_HRF no_raise (reads_as spread_only_df) (one_file ''a.csv'') ''a.csv''
             ''HRF Data'' None True None))
   \<and> ts_mean_vec (projr (fst (disp_avg_HRF no_raise (reads_as spread_only_df)
             (one_file ''a.csv'') ''a.csv'' ''HRF Data'' None True None))) = [NaN, NaN]"
proof -
  note p1 = pipeline_outcome(1)[of "one_file ''a.csv''" "''a.csv''" "''csv''"
      "reads_as spread_only_df" spread_only_df, OF one_file_hit reads_as_loaded]
  note p2 = pipeline_outcome(2)[of "one_file ''a.csv''" "''a.csv''" "''csv''"
      "reads_as spread_only_df" spread_only_df no_raise "''HRF Data''" None True None,
      OF one_file_hit reads_as_loaded]
  from p1 have 1: "\<not> isl (fst (reduce_traces (reads_as spread_only_df) (one_file ''a.csv'')
      ''a.csv'')) \<and> ts_mean_vec (projr (fst (reduce_traces (reads_as spread_only_df)
      (one_file ''a.csv'') ''a.csv''))) = [NaN, NaN]"
    unfolding spread_only_ts by auto
  from p2
  have 2: "\<not> isl (fst (disp_avg_HRF no_raise (reads_as spread_only_df) (one_file ''a.csv'')
      ''a.csv'' ''HRF Data'' None True None))
    \<and> ts_mean_vec (projr (fst (disp_avg_HRF no_raise (reads_as spread_only_df)
             (one_file ''a.csv'') ''a.csv'' ''HRF Data'' None True None))) = [NaN, NaN]"
    unfolding spread_only_ts by (auto simp: no_raise_def)
  from 1 2 show ?thesis
    by blast
qed

text \<open>
  C8 (amended). The pipeline has no validation of the group widths. When a group of
  a numeric table matches no column, loading and reduction still succeed, and the trace
  of that group is NaN in every row. After that \<^verbatim>\<open>disp_avg_HRF\<close> raises no error of its
  own: it returns with these traces, or it ends with the exception of a pyplot call.
\<close>

theorem zero_width_group_gives_nan:
  "fs filepath = Some content \<Longrightarrow> read_csv content = Inr df \<Longrightarrow>
   \<exists>tr ev. reduce_traces read_csv fs filepath = (Inr tr, ev)
     \<and> length (ts_mean_vec tr) = index_len df
     \<and> length (std_avg_across_channels tr) = index_len df
     \<and> ((\<forall>c \<in> set (columns df). \<not> (\<exists>ps ss. fst c = ps @ ''ts_ch'' @ ss))
          \<longrightarrow> ts_mean_vec tr = replicate (index_len df) NaN)
     \<and> ((\<forall>c \<in> set (columns df). \<not> (\<exists>ps ss. fst c = ps @ ''std_ch'' @ ss))
          \<longrightarrow> std_avg_across_channels tr = replicate (index_len df) NaN)
     \<and> ((\<exists>r ev'. disp_avg_HRF plt read_csv fs filepath title filepath_fig show y_lim = (Inr r, ev')
            \<and> t_axis r = t_axis tr \<and> ts_mean_vec r = ts_mean_vec tr
            \<and> std_avg_across_channels r = std_avg_across_channels tr)
        \<or> (\<exists>c x ev'. plt c = Some x
            \<and> disp_avg_HRF plt read_csv fs filepath title filepath_fig show y_lim
                = (Inl (PyplotError x), ev')))"
proof -
  assume a: "fs filepath = Some content" "read_csv content = Inr df"
  define tr where "tr = \<lparr>t_axis = linspace (Fin 0) (Fin 20) (index_len df),
      ts_mean_vec = mean_axis1 (df_values (filter_like ''ts_ch'' df)),
      std_avg_across_channels = mean_axis1 (df_values (filter_like ''std_ch'' df))\<rparr>"
  from pipeline_outcome(1)[of fs filepath content read_csv df, OF a]
  obtain ev where r: "reduce_traces read_csv fs filepath = (Inr tr, ev)"
    unfolding tr_def by blast
  note out = pipeline_outcome(2)[of fs filepath content read_csv df plt title filepath_fig
      "show" y_lim, OF a, folded tr_def]
  have zt: "(\<forall>c \<in> set (columns df). \<not> (\<exists>ps ss. fst c = ps @ ''ts_ch'' @ ss))
          \<longrightarrow> ts_mean_vec tr = replicate (index_len df) NaN"
    unfolding tr_def traces.simps
    by (intro impI) (simp only: filter_like_no_match mean_axis1_empty_rows)
  have zs: "(\<forall>c \<in> set (columns df). \<not> (\<exists>ps ss. fst c = ps @ ''std_ch'' @ ss))
          \<longrightarrow> std_avg_across_channels tr = replicate (index_len df) NaN"
    unfolding tr_def traces.simps
    by (intro impI) (simp only: filter_like_no_match mean_axis1_empty_rows)
  have l: "length (ts_mean_vec tr) = index_len df"
    "length (std_avg_across_channels tr) = index_len df"
    by (simp_all add: tr_def length_mean_axis1 length_df_values index_len_filter_like)
  show ?thesis
    by (rule exI[of _ tr], rule exI[of _ ev]) (intro conjI r l zt zs out)
qed

theorem zero_width_group_gives_nan_witness:
  "(\<exists>r ev. disp_avg_HRF no_raise (reads_as unmarked_df) (one_file ''a.csv'') ''a.csv''
       ''HRF Data'' None True None = (Inr r, ev)
     \<and> ts_mean_vec r = [NaN, NaN, NaN] \<and> std_avg_across_channels r = [NaN, NaN, NaN])
   \<and> (\<exists>ev. disp_avg_HRF no_directory (reads_as unmarked_df) (one_file ''a.csv'') ''a.csv''
       ''HRF Data'' (Some ''plots/a.png'') True None
         = (Inl (PyplotError ''FileNotFoundError''), ev))"
proof -
  have n: "replicate (index_len unmarked_df) NaN = [NaN, NaN, NaN]"
    by (simp add: unmarked_df_def numeral_3_eq_3)
  from zero_width_group_gives_nan[of "one_file ''a.csv''" "''a.csv''" "''csv''"
      "reads_as unmarked_df" unmarked_df no_raise "''HRF Data''" None True None,
      OF one_file_hit reads_as_loaded]
  have 1: "\<exists>r ev. disp_avg_HRF no_raise (reads_as unmarked_df) (one_file ''a.csv'') ''a.csv''
       ''HRF Data'' None True None = (Inr r, ev)
     \<and> ts_mean_vec r = [NaN, NaN, NaN] \<and> std_avg_across_channels r = [NaN, NaN, NaN]"
    using unmarked_no_match unfolding n by (auto simp: no_raise_def)
  have "\<exists>ev. disp_avg_HRF no_directory (reads_as unmarked_df) (one_file ''a.csv'') ''a.csv''
       ''HRF Data'' (Some ''plots/a.png'') True None
         = (Inl (PyplotError ''FileNotFoundError''), ev)"
    using pipeline_outcome(1)[of "one_file ''a.csv''" "''a.csv''" "''csv''"
      "reads_as unmarked_df" unmarked_df, OF one_file_hit reads_as_loaded]
    by (auto simp: disp_avg_HRF_def render_def alloc_def Let_def np_binop_same_length
        no_directory_def length_mean_axis1 length_df_values index_len_filter_like)
  with 1 show ?thesis
    by blast
qed

section \<open>Rounding to binary64\<close>

lemma bitlen_powi:
  assumes "0 < x"
  shows "2 powi (bitlen x - 1) \<le> (of_int x :: rat)" "(of_int x :: rat) < 2 powi (bitlen x)"
proof -
  from assms have b: "1 \<le> bitlen x"
    by (simp add: bitlen_alt_def)
  from bitlen_bounds[OF assms] have l: "2 ^ nat (bitlen x - 1) \<le> x" and u: "x < 2 ^ nat (bitlen x)"
    by simp_all
  from l have "(of_int (2 ^ nat (bitlen x - 1)) :: rat) \<le> of_int x"
    by (simp only: of_int_le_iff)
  with b show "2 powi (bitlen x - 1) \<le> (of_int x :: rat)"
    by (simp add: power_int_def)
  from u have "(of_int x :: rat) < of_int (2 ^ nat (bitlen x))"
    by (simp only: of_int_less_iff)
  with b show "(of_int x :: rat) < 2 powi (bitlen x)"
    by (simp add: power_int_def)
qed

lemma ilog2_bounds:
  assumes "0 < q"
  shows "2 powi (ilog2 q) \<le> q" "q < 2 powi (ilog2 q + 1)"
proof -
  obtain a b where ab: "quotient_of q = (a, b)"
    by (cases "quotient_of q")
  then have bpos: "0 < b" and q: "q = of_int a / of_int b"
    by (simp_all add: quotient_of_denom_pos quotient_of_div)
  with assms have apos: "0 < a"
    by (simp add: zero_less_divide_iff)
  let ?d = "bitlen a - bitlen b"
  have pa: "2 powi (bitlen a - 1) \<le> (of_int a :: rat)" "(of_int a :: rat) < 2 powi (bitlen a)"
    using bitlen_powi[OF apos] by simp_all
  have pb: "2 powi (bitlen b - 1) \<le> (of_int b :: rat)" "(of_int b :: rat) < 2 powi (bitlen b)"
    using bitlen_powi[OF bpos] by simp_all
  have bq: "0 < (of_int b :: rat)"
    using bpos by simp
  have p0: "\<And>n. 0 < (2::rat) powi n"
    by simp
  have lo: "2 powi (?d - 1) < q"
  proof -
    have "(2::rat) powi (?d - 1) * of_int b < 2 powi (?d - 1) * 2 powi (bitlen b)"
      using pb(2) p0 by (simp only: mult_less_cancel_left_pos)
    also have "\<dots> = 2 powi (bitlen a - 1)"
      by (simp add: power_int_add[symmetric])
    also have "\<dots> \<le> of_int a"
      by (rule pa(1))
    finally show ?thesis
      using bq by (simp add: q pos_less_divide_eq)
  qed
  have hi: "q < 2 powi (?d + 1)"
  proof -
    have "(of_int a :: rat) < 2 powi (bitlen a)"
      by (rule pa(2))
    also have "\<dots> = 2 powi (?d + 1) * 2 powi (bitlen b - 1)"
      by (simp add: power_int_add[symmetric])
    also have "\<dots> \<le> 2 powi (?d + 1) * of_int b"
      using pb(1) p0 by (simp only: mult_le_cancel_left_pos)
    finally show ?thesis
      using bq by (simp add: q pos_divide_less_eq)
  qed
  show "2 powi (ilog2 q) \<le> q" "q < 2 powi (ilog2 q + 1)"
    using lo hi by (auto simp: ilog2_def ab Let_def)
qed


lemma two_powi_less_iff: "(2::rat) powi a < 2 powi b \<longleftrightarrow> a < b"
  using power_int_strict_increasing[of a b "2::rat"] power_int_increasing[of b a "2::rat"]
  by (auto simp: not_le[symmetric])

lemma two_powi_le_iff: "(2::rat) powi a \<le> 2 powi b \<longleftrightarrow> a \<le> b"
  using power_int_strict_increasing[of b a "2::rat"] power_int_increasing[of a b "2::rat"]
  by (auto simp: not_less[symmetric])

lemma ilog2_less: "0 < q \<Longrightarrow> q < 2 powi k \<Longrightarrow> ilog2 q < k"
  using ilog2_bounds(1)[of q] two_powi_less_iff[of "ilog2 q" k] by simp

lemma ilog2_ge: "0 < q \<Longrightarrow> 2 powi k \<le> q \<Longrightarrow> k \<le> ilog2 q"
  using ilog2_bounds(2)[of q] two_powi_less_iff[of k "ilog2 q + 1"] by simp

lemma round_half_even_err: "\<bar>of_int (round_half_even x) - x\<bar> \<le> 1 / 2"
proof -
  have "of_int \<lfloor>x\<rfloor> \<le> x" "x < of_int \<lfloor>x\<rfloor> + 1"
    by linarith+
  then show ?thesis
    unfolding round_half_even_def Let_def by (simp add: abs_le_iff)
qed

lemma round_half_even_of_int: "round_half_even (of_int n) = n"
  by (simp add: round_half_even_def)

lemma round_half_even_le: "x \<le> of_int k \<Longrightarrow> round_half_even x \<le> k"
proof -
  assume a: "x \<le> of_int k"
  have f: "of_int \<lfloor>x\<rfloor> \<le> x" "\<lfloor>x\<rfloor> \<le> k"
    using a by (linarith, simp add: floor_le_iff)
  have "\<lfloor>x\<rfloor> + 1 \<le> k" if "1 / 2 \<le> x - of_int \<lfloor>x\<rfloor>"
  proof -
    from that a have "rat_of_int \<lfloor>x\<rfloor> < of_int k"
      by linarith
    then show ?thesis
      by simp
  qed
  with f show ?thesis
    unfolding round_half_even_def Let_def by (simp add: not_less)
qed

lemma round_half_even_ge: "of_int k \<le> x \<Longrightarrow> k \<le> round_half_even x"
proof -
  assume "of_int k \<le> x"
  then have "k \<le> \<lfloor>x\<rfloor>"
    by (simp add: le_floor_iff)
  then show ?thesis
    unfolding round_half_even_def Let_def by simp
qed


lemma f64_round_on_grid:
  assumes q: "q = of_int m * 2 powi e" and nz: "q \<noteq> 0"
    and ulp: "f64_ulp_exp q \<le> e" and bound: "\<bar>q\<bar> < 2 powi 1024"
  shows "f64_round q = Fin q"
proof -
  define E where "E = f64_ulp_exp q"
  define k where "k = m * 2 ^ nat (e - E)"
  have "(2::rat) powi (e - E) = of_int (2 ^ nat (e - E))"
    using ulp by (simp add: power_int_def E_def)
  moreover have "(2::rat) powi e = 2 powi (e - E) * 2 powi E"
    by (simp add: power_int_add[symmetric])
  ultimately have "q = of_int m * (of_int (2 ^ nat (e - E)) * 2 powi E)"
    by (simp only: q)
  then have qk: "q = of_int k * 2 powi E"
    by (simp add: k_def)
  then have "q / 2 powi E = of_int k"
    by simp
  then have "of_int (round_half_even (q / 2 powi E)) * 2 powi E = q"
    by (simp only: round_half_even_of_int qk[symmetric])
  moreover have "ilog2 \<bar>q\<bar> < 1024"
    using nz bound by (intro ilog2_less) simp_all
  ultimately show ?thesis
    using nz by (simp add: f64_round_def Let_def E_def)
qed

lemma f64_ulp_exp_grid:
  assumes q: "q = of_int m * 2 powi e" and nz: "q \<noteq> 0"
    and m: "\<bar>m\<bar> < 2 ^ 53" and e: "- 1074 \<le> e"
  shows "f64_ulp_exp q \<le> e"
proof -
  have "(2::rat) powi (ilog2 \<bar>q\<bar>) \<le> \<bar>q\<bar>"
    using nz by (intro ilog2_bounds) simp
  also have "\<bar>q\<bar> = of_int \<bar>m\<bar> * 2 powi e"
    by (simp add: q abs_mult)
  also have "\<dots> < of_int (2 ^ 53) * 2 powi e"
    using m by (simp only: mult_less_cancel_right_pos zero_less_power_int zero_less_numeral of_int_less_iff)
  also have "\<dots> = 2 powi (53 + e)"
    by (simp add: power_int_add)
  finally have "ilog2 \<bar>q\<bar> < 53 + e"
    by (simp only: two_powi_less_iff)
  with e show ?thesis
    by (simp add: f64_ulp_exp_def)
qed

lemma f64_round_exact:
  assumes q: "q = of_int m * 2 powi e" and m: "\<bar>m\<bar> \<le> 2 ^ 53" and e: "- 1074 \<le> e"
    and bound: "\<bar>q\<bar> < 2 powi 1024"
  shows "f64_round q = Fin q"
proof (cases "q = 0")
  case True
  then show ?thesis
    by (simp add: f64_round_def)
next
  case nz: False
  show ?thesis
  proof (cases "\<bar>m\<bar> < 2 ^ 53")
    case True
    from f64_ulp_exp_grid[OF q nz True e] show ?thesis
      by (rule f64_round_on_grid[OF q nz _ bound])
  next
    case False
    with m have "\<bar>m\<bar> = 2 ^ 53"
      by simp
    then have "m = 9007199254740992 \<or> m = - 9007199254740992"
      by (simp add: abs_if split: if_splits)
    then have m2: "m = 2 * (m div 2)" "\<bar>m div 2\<bar> < 2 ^ 53"
      by auto
    have "(2::rat) powi (e + 1) = 2 * 2 powi e"
      by (simp add: power_int_add)
    then have q2: "q = of_int (m div 2) * 2 powi (e + 1)"
      using m2(1) by (simp add: q)
    from e have e2: "- 1074 \<le> e + 1"
      by simp
    from f64_ulp_exp_grid[OF q2 nz m2(2) e2] show ?thesis
      by (rule f64_round_on_grid[OF q2 nz _ bound])
  qed
qed

lemma f64_of_nat_exact: "n \<le> 2 ^ 53 \<Longrightarrow> f64_of_nat n = Fin (of_nat n)"
proof -
  assume n: "n \<le> 2 ^ 53"
  have "(of_nat n :: rat) = of_int (int n) * 2 powi 0"
    by simp
  moreover have "\<bar>int n\<bar> \<le> 2 ^ 53"
    using n by (simp add: of_nat_le_iff[of n "2 ^ 53", where ?'a = int, simplified])
  moreover have "\<bar>of_nat n :: rat\<bar> < 2 powi 1024"
  proof -
    have "(of_nat n :: rat) \<le> of_nat (2 ^ 53)"
      using n by (simp only: of_nat_le_iff)
    also have "\<dots> < 2 powi 1024"
      by simp
    finally show ?thesis
      by simp
  qed
  ultimately show ?thesis
    unfolding f64_of_nat_def by (intro f64_round_exact[of _ "int n" 0]) simp_all
qed


lemma ilog2_0: "ilog2 0 = - 2"
  by code_simp

lemma f64_ulp_exp_ge: "- 1074 \<le> f64_ulp_exp q"
  by (simp add: f64_ulp_exp_def)

lemma f64_round_cases:
  assumes "q \<noteq> 0"
  obtains (finite) "f64_round q = Fin (of_int (round_half_even (q / 2 powi f64_ulp_exp q)) * 2 powi f64_ulp_exp q)"
      "ilog2 \<bar>of_int (round_half_even (q / 2 powi f64_ulp_exp q)) * 2 powi f64_ulp_exp q\<bar> < 1024"
    | (overflow) "f64_round q = PInf \<or> f64_round q = NInf"
      "1024 \<le> ilog2 \<bar>of_int (round_half_even (q / 2 powi f64_ulp_exp q)) * 2 powi f64_ulp_exp q\<bar>"
  using assms by (cases "1024 \<le> ilog2 \<bar>of_int (round_half_even (q / 2 powi f64_ulp_exp q)) * 2 powi f64_ulp_exp q\<bar>")
    (simp_all add: f64_round_def Let_def)

lemma scaled_less_2_53:
  assumes "q \<noteq> 0"
  shows "\<bar>q / 2 powi f64_ulp_exp q\<bar> < 2 ^ 53"
proof -
  let ?E = "f64_ulp_exp q"
  have "ilog2 \<bar>q\<bar> + 1 \<le> ?E + 53"
    by (simp add: f64_ulp_exp_def)
  have "\<bar>q\<bar> < 2 powi (ilog2 \<bar>q\<bar> + 1)"
    using assms by (intro ilog2_bounds) simp
  also have "\<dots> \<le> 2 powi (?E + 53)"
    using \<open>ilog2 \<bar>q\<bar> + 1 \<le> ?E + 53\<close> by (simp only: two_powi_le_iff)
  also have "\<dots> = 2 ^ 53 * 2 powi ?E"
    by (simp add: power_int_add)
  finally have "\<bar>q\<bar> / 2 powi ?E < 2 ^ 53"
    by (simp add: pos_divide_less_eq)
  then show ?thesis
    by (simp add: abs_divide power_int_abs)
qed

lemma round_scaled_le_2_53:
  assumes "q \<noteq> 0"
  shows "\<bar>round_half_even (q / 2 powi f64_ulp_exp q)\<bar> \<le> 2 ^ 53"
proof -
  let ?x = "q / 2 powi f64_ulp_exp q"
  have "\<bar>?x\<bar> < 2 ^ 53"
    by (rule scaled_less_2_53[OF assms])
  then have "?x \<le> 2 ^ 53" "- (2 ^ 53) \<le> ?x"
    by linarith+
  then have "?x \<le> of_int (2 ^ 53)" "of_int (- (2 ^ 53)) \<le> ?x"
    by simp_all
  then have "round_half_even ?x \<le> 2 ^ 53" "- (2 ^ 53) \<le> round_half_even ?x"
    using round_half_even_le[of ?x "2 ^ 53"] round_half_even_ge[of "- (2 ^ 53)" ?x]
    by blast+
  then show ?thesis
    by (simp add: abs_le_iff)
qed

lemma f64_round_idem:
  assumes "f64_round q = Fin r"
  shows "f64_round r = Fin r"
proof (cases "q = 0")
  case True
  with assms show ?thesis
    by (simp add: f64_round_def)
next
  case nz: False
  let ?E = "f64_ulp_exp q"
  let ?m = "round_half_even (q / 2 powi ?E)"
  from nz assms have r: "r = of_int ?m * 2 powi ?E" and fin: "ilog2 \<bar>r\<bar> < 1024"
    by (cases q rule: f64_round_cases[case_names nz finite overflow]; simp; fail)+
  have "\<bar>r\<bar> < 2 powi 1024"
  proof (cases "r = 0")
    case False
    then have "\<bar>r\<bar> < 2 powi (ilog2 \<bar>r\<bar> + 1)"
      by (intro ilog2_bounds) simp
    also have "\<dots> \<le> 2 powi 1024"
      using fin by (simp only: two_powi_le_iff)
    finally show ?thesis .
  qed simp
  with r round_scaled_le_2_53[OF nz] f64_ulp_exp_ge[of q] show ?thesis
    by (intro f64_round_exact[of r ?m ?E])
qed


lemma f64_round_rel_err:
  assumes lo: "2 powi (- 1022) \<le> \<bar>q\<bar>" and hi: "\<bar>q\<bar> < 2 powi 1023"
  shows "\<exists>r. f64_round q = Fin r \<and> \<bar>r - q\<bar> \<le> \<bar>q\<bar> / 2 ^ 53"
proof -
  define E where "E = f64_ulp_exp q"
  define m where "m = round_half_even (q / 2 powi E)"
  define r :: rat where "r = of_int m * 2 powi E"
  have "(0::rat) < 2 powi (- 1022)"
    by simp
  with lo have pos: "0 < \<bar>q\<bar>" and nz: "q \<noteq> 0"
    by auto
  have L: "- 1022 \<le> ilog2 \<bar>q\<bar>"
    using pos lo by (rule ilog2_ge)
  then have E: "E = ilog2 \<bar>q\<bar> - 52"
    by (simp add: E_def f64_ulp_exp_def)
  have "(2::rat) powi E * 2 ^ 52 = 2 powi (ilog2 \<bar>q\<bar>)"
    by (simp add: E power_int_diff)
  also have "\<dots> \<le> \<bar>q\<bar>"
    using pos by (rule ilog2_bounds)
  finally have ulp: "(2::rat) powi E \<le> \<bar>q\<bar> / 2 ^ 52"
    by (simp add: pos_le_divide_eq)
  have "r - q = (of_int m - q / 2 powi E) * 2 powi E"
    by (simp add: r_def algebra_simps)
  then have "\<bar>r - q\<bar> = \<bar>of_int m - q / 2 powi E\<bar> * 2 powi E"
    by (simp add: abs_mult power_int_abs)
  also have "\<dots> \<le> 1 / 2 * 2 powi E"
    unfolding m_def by (intro mult_right_mono round_half_even_err) simp
  also have "\<dots> \<le> 1 / 2 * (\<bar>q\<bar> / 2 ^ 52)"
    using ulp by simp
  finally have err: "\<bar>r - q\<bar> \<le> \<bar>q\<bar> / 2 ^ 53"
    by simp
  have "\<bar>r\<bar> \<le> \<bar>q\<bar> + \<bar>q\<bar> / 2 ^ 53"
    using err by linarith
  also have "\<dots> < 2 powi 1023 + 2 powi 1023"
    using hi pos by (intro add_strict_mono) (simp_all add: field_simps)
  also have "\<dots> = 2 powi 1024"
    by simp
  finally have rb: "\<bar>r\<bar> < 2 powi 1024" .
  have "ilog2 \<bar>r\<bar> < 1024"
  proof (cases "r = 0")
    case True
    then show ?thesis
      by (simp add: ilog2_0)
  next
    case False
    with rb show ?thesis
      by (intro ilog2_less) simp_all
  qed
  with nz have "f64_round q = Fin r"
    by (simp add: f64_round_def Let_def r_def m_def E_def)
  with err show ?thesis
    by blast
qed


section \<open>The time axis\<close>

lemma f64_round_20: "f64_round 20 = Fin 20"
  by code_simp

lemma two_powi_tiny: "(2::rat) powi (- 1022) \<le> 1 / 2 ^ 60"
proof -
  have "(2::rat) powi (- 1022) \<le> 2 powi (- 60)"
    by (simp only: two_powi_le_iff)
  then show ?thesis
    by (simp add: power_int_minus_divide)
qed

lemma two_powi_huge: "(2::rat) ^ 60 \<le> 2 powi 1023"
proof -
  have "(2::rat) powi 60 \<le> 2 powi 1023"
    by (simp only: two_powi_le_iff)
  then show ?thesis
    by simp
qed

lemma step_bounds:
  assumes "1 \<le> n" "n \<le> 2 ^ 53"
  shows "\<exists>s. f64_round (20 / of_nat n) = Fin s
           \<and> \<bar>s - 20 / of_nat n\<bar> \<le> (20 / of_nat n) / 2 ^ 53"
proof -
  define g :: rat where "g = 20 / of_nat n"
  have "(of_nat n :: rat) \<le> of_nat (2 ^ 53)"
    using assms(2) by (simp only: of_nat_le_iff)
  then have n: "(1::rat) \<le> of_nat n" "(of_nat n :: rat) \<le> 2 ^ 53"
    using assms(1) by simp_all
  then have g: "20 / 2 ^ 53 \<le> g" "g \<le> 20"
    by (simp_all add: g_def field_simps)
  then have "0 < g"
    by simp
  have "(1::rat) / 2 ^ 60 \<le> 20 / 2 ^ 53" "(20::rat) < 2 ^ 60"
    by simp_all
  then have "2 powi (- 1022) \<le> \<bar>g\<bar>" "\<bar>g\<bar> < 2 powi 1023"
    using two_powi_tiny two_powi_huge g \<open>0 < g\<close> by linarith+
  then
  obtain s where "f64_round g = Fin s" "\<bar>s - g\<bar> \<le> \<bar>g\<bar> / 2 ^ 53"
    using f64_round_rel_err by blast
  with \<open>0 < g\<close> show ?thesis
    unfolding g_def by auto
qed


lemma axis_point:
  assumes g: "20 / 2 ^ 53 \<le> g" "g \<le> 20" and s: "\<bar>s - g\<bar> \<le> g / 2 ^ 53"
    and i: "i \<le> 2 ^ 53"
  shows "\<exists>y. f64_add (f64_mul (f64_of_nat i) (Fin s)) (Fin 0) = Fin y
           \<and> \<bar>y - of_nat i * g\<bar> \<le> of_nat i * g / 2 ^ 51"
proof (cases "i = 0")
  case True
  then show ?thesis
    by (simp add: f64_of_nat_def f64_round_def)
next
  case False
  define a :: rat where "a = of_nat i * g"
  define b :: rat where "b = of_nat i * s"
  have "(of_nat i :: rat) \<le> of_nat (2 ^ 53)"
    using i by (simp only: of_nat_le_iff)
  then have ir: "(1::rat) \<le> of_nat i" "(of_nat i :: rat) \<le> 2 ^ 53"
    using False by simp_all
  have gpos: "0 < g"
    using g(1) by simp
  have "g / 2 ^ 53 \<le> g / 2"
    using gpos by (intro divide_left_mono) simp_all
  then have sg: "g / 2 \<le> s" "s \<le> 2 * g"
    using s gpos by linarith+
  have "b - a = of_nat i * (s - g)"
    by (simp add: a_def b_def algebra_simps)
  then have "\<bar>b - a\<bar> = of_nat i * \<bar>s - g\<bar>"
    by (simp add: abs_mult)
  also have "\<dots> \<le> of_nat i * (g / 2 ^ 53)"
    using s by (intro mult_left_mono) simp_all
  finally have ba: "\<bar>b - a\<bar> \<le> a / 2 ^ 53"
    by (simp add: a_def)
  have apos: "0 < a"
    using ir gpos by (simp add: a_def)
  have "1 * (g / 2) \<le> of_nat i * s"
    using ir(1) sg(1) gpos by (intro mult_mono) simp_all
  then have blo: "10 / 2 ^ 53 \<le> b"
    using g(1) by (simp add: b_def)
  have spos: "0 \<le> s" "s \<le> 2 * 20"
    using sg g(2) gpos by linarith+
  have "of_nat i * s \<le> 2 ^ 53 * (2 * 20)"
    using ir spos by (intro mult_mono) simp_all
  then have bhi: "b \<le> 2 ^ 59"
    by (simp add: b_def)
  have "(1::rat) / 2 ^ 60 \<le> 10 / 2 ^ 53" "(2::rat) ^ 59 < 2 ^ 60"
    by simp_all
  moreover have "0 < b"
    using blo by simp
  ultimately have "2 powi (- 1022) \<le> \<bar>b\<bar>" "\<bar>b\<bar> < 2 powi 1023"
    using two_powi_tiny two_powi_huge blo bhi by linarith+
  then obtain y where y: "f64_round b = Fin y" "\<bar>y - b\<bar> \<le> \<bar>b\<bar> / 2 ^ 53"
    using f64_round_rel_err by blast
  have "f64_add (f64_mul (f64_of_nat i) (Fin s)) (Fin 0) = Fin y"
    using f64_of_nat_exact[OF i] y(1) f64_round_idem[OF y(1)] by (simp add: b_def)
  moreover have "\<bar>y - a\<bar> \<le> a / 2 ^ 51"
  proof -
    have "a / 2 ^ 53 \<le> a"
      using apos by (simp add: field_simps)
    then have "\<bar>b\<bar> \<le> 2 * a"
      using ba by linarith
    then have "\<bar>b\<bar> / 2 ^ 53 \<le> 2 * a / 2 ^ 53"
      by (intro divide_right_mono) simp_all
    then have "\<bar>y - b\<bar> \<le> 2 * (a / 2 ^ 53)"
      using y(2) by simp
    with ba have "\<bar>y - a\<bar> \<le> 3 * (a / 2 ^ 53)"
      by linarith
    also have "\<dots> \<le> a / 2 ^ 51"
      using apos by simp
    finally show ?thesis .
  qed
  ultimately show ?thesis
    unfolding a_def by blast
qed


lemma linspace_1: "linspace (Fin 0) (Fin 20) 1 = [Fin 0]"
  by code_simp

lemma linspace_0_20:
  assumes N: "2 \<le> N" "N \<le> 2 ^ 53"
    and s: "f64_round (20 / of_nat (N - 1)) = Fin s" "s \<noteq> 0"
  shows "linspace (Fin 0) (Fin 20) N =
     (map (\<lambda>i. f64_add (f64_mul (f64_of_nat i) (Fin s)) (Fin 0)) [0..<N])[N - 1 := Fin 20]"
proof -
  have "nat (int N - 1) = N - 1"
    by simp
  moreover have "f64_of_nat (N - 1) = Fin (of_nat (N - 1))"
    using N(2) by (intro f64_of_nat_exact) simp
  moreover have "(of_nat (N - 1) :: rat) \<noteq> 0"
    using N(1) by simp
  ultimately show ?thesis
    using N(1) s by (simp add: linspace_def Let_def f64_sub_def f64_round_20 comp_def)
qed

lemma linspace_nth:
  assumes N: "N \<le> 2 ^ 53" and i: "i < N"
  shows "\<exists>y. linspace (Fin 0) (Fin 20) N ! i = Fin y
           \<and> \<bar>y - of_nat i * (20 / of_nat (N - 1))\<bar> \<le> of_nat i * (20 / of_nat (N - 1)) / 2 ^ 51"
proof (cases "N = 1")
  case True
  with i have "i = 0"
    by simp
  show ?thesis
    unfolding True \<open>i = 0\<close> linspace_1 by simp
next
  case False
  with i have N2: "2 \<le> N"
    by simp
  define g :: rat where "g = 20 / of_nat (N - 1)"
  have "N - 1 \<le> 2 ^ 53"
    using N by simp
  then have "(of_nat (N - 1) :: rat) \<le> of_nat (2 ^ 53)"
    by (simp only: of_nat_le_iff)
  then have n: "(1::rat) \<le> of_nat (N - 1)" "(of_nat (N - 1) :: rat) \<le> 2 ^ 53"
    using N2 by simp_all
  then have g: "20 / 2 ^ 53 \<le> g" "g \<le> 20"
    by (simp_all add: g_def field_simps)
  then have gpos: "0 < g"
    by simp
  have "1 \<le> N - 1"
    using N2 by simp
  from step_bounds[OF this \<open>N - 1 \<le> 2 ^ 53\<close>] obtain s where
    s: "f64_round g = Fin s" "\<bar>s - g\<bar> \<le> g / 2 ^ 53"
    unfolding g_def by blast
  have "g / 2 ^ 53 < g"
    using gpos by (simp add: field_simps)
  with s(2) have "s \<noteq> 0"
    by auto
  note ls = linspace_0_20[OF N2 N s(1)[unfolded g_def] \<open>s \<noteq> 0\<close>]
  show ?thesis
  proof (cases "i = N - 1")
    case True
    have nz: "(of_nat (N - 1) :: rat) \<noteq> 0"
      using n(1) by linarith
    have "of_nat (N - 1) * g = of_nat (N - 1) * 20 / of_nat (N - 1)"
      unfolding g_def by (rule times_divide_eq_right)
    also have "\<dots> = 20"
      using nz by (rule nonzero_mult_div_cancel_left)
    finally have e: "of_nat (N - 1) * g = 20" .
    have v: "linspace (Fin 0) (Fin 20) N ! i = Fin 20"
      using True i unfolding ls by simp
    have "\<bar>20 - of_nat i * g\<bar> \<le> of_nat i * g / 2 ^ 51"
      unfolding True e by simp
    with v show ?thesis
      unfolding g_def by blast
  next
    case False
    from i N have "i \<le> 2 ^ 53"
      by simp
    have v: "linspace (Fin 0) (Fin 20) N ! i = f64_add (f64_mul (f64_of_nat i) (Fin s)) (Fin 0)"
      using False i unfolding ls by simp
    from axis_point[OF g s(2) \<open>i \<le> 2 ^ 53\<close>] show ?thesis
      unfolding v g_def .
  qed
qed

lemma linspace_first:
  assumes "N \<le> 2 ^ 53" "0 < N"
  shows "linspace (Fin 0) (Fin 20) N ! 0 = Fin 0"
  using linspace_nth[OF assms] by simp

lemma linspace_last:
  assumes "1 < N"
  shows "last (linspace (Fin 0) (Fin 20) N) = Fin 20"
proof -
  have "linspace (Fin 0) (Fin 20) N \<noteq> []"
    using assms length_linspace[of "Fin 0" "Fin 20" N] by auto
  then have "last (linspace (Fin 0) (Fin 20) N) = linspace (Fin 0) (Fin 20) N ! (N - 1)"
    by (simp add: last_conv_nth length_linspace)
  also have "\<dots> = Fin 20"
    using assms by (simp add: linspace_def Let_def)
  finally show ?thesis .
qed

text \<open>
  C7 (as stated, refuted). For a table with a single row the time axis is \<open>[0]\<close>: it
  has one value, which is not 20.
\<close>

theorem time_axis_single_row:
  "t_axis (projr (fst (reduce_traces (reads_as one_row_df) (one_file ''a.csv'') ''a.csv'')))
     = [Fin 0]
   \<and> t_axis (projr (fst (disp_avg_HRF no_raise (reads_as one_row_df) (one_file ''a.csv'')
      ''a.csv'' ''HRF Data'' None True None))) = [Fin 0]
   \<and> length (ts_mean_vec (projr (fst (disp_avg_HRF no_raise (reads_as one_row_df)
      (one_file ''a.csv'') ''a.csv'' ''HRF Data'' None True None)))) = 1
   \<and> last (t_axis (projr (fst (disp_avg_HRF no_raise (reads_as one_row_df) (one_file ''a.csv'')
      ''a.csv'' ''HRF Data'' None True None)))) \<noteq> Fin 20"
proof -
  have n: "index_len one_row_df = 1"
    by (simp add: one_row_df_def)
  note p1 = pipeline_outcome(1)[of "one_file ''a.csv''" "''a.csv''" "''csv''"
      "reads_as one_row_df" one_row_df, OF one_file_hit reads_as_loaded]
  note p2 = pipeline_outcome(2)[of "one_file ''a.csv''" "''a.csv''" "''csv''"
      "reads_as one_row_df" one_row_df no_raise "''HRF Data''" None True None,
      OF one_file_hit reads_as_loaded]
  from p1 have 1: "t_axis (projr (fst (reduce_traces (reads_as one_row_df) (one_file ''a.csv'')
      ''a.csv''))) = [Fin 0]"
    unfolding n linspace_1 by auto
  from p2 have 2: "t_axis (projr (fst (disp_avg_HRF no_raise (reads_as one_row_df)
        (one_file ''a.csv'') ''a.csv'' ''HRF Data'' None True None))) = [Fin 0]
    \<and> length (ts_mean_vec (projr (fst (disp_avg_HRF no_raise (reads_as one_row_df)
        (one_file ''a.csv'') ''a.csv'' ''HRF Data'' None True None)))) = 1"
    unfolding n linspace_1
    by (auto simp: no_raise_def length_mean_axis1 length_df_values index_len_filter_like n)
  from 1 2 show ?thesis
    by simp
qed

text \<open>
  C7 (amended). The time axis depends on the number \<open>N\<close> of rows only and has exactly
  \<open>N\<close> values (for \<open>N\<close> up to \<open>2\<^sup>5\<^sup>3\<close>). If \<open>N \<ge> 1\<close> it starts at 0. If \<open>N \<ge> 2\<close> it ends at
  20 exactly, and the value at index \<open>i\<close> is \<open>i \<sqdot> 20 / (N - 1)\<close> up to a relative rounding
  error of \<open>2\<^sup>-\<^sup>5\<^sup>1\<close>: evenly spaced up to binary64 rounding. If \<open>N = 1\<close> the axis is \<open>[0]\<close>.
  This is the axis \<^verbatim>\<open>disp_avg_HRF\<close> returns with, unless a pyplot call raises.
\<close>

theorem time_axis_evenly_spaced:
  "fs filepath = Some content \<Longrightarrow> read_csv content = Inr df \<Longrightarrow> index_len df \<le> 2 ^ 53 \<Longrightarrow>
   \<exists>tr ev. reduce_traces read_csv fs filepath = (Inr tr, ev)
     \<and> t_axis tr = linspace (Fin 0) (Fin 20) (length (ts_mean_vec tr))
     \<and> length (ts_mean_vec tr) = index_len df
     \<and> length (t_axis tr) = length (ts_mean_vec tr)
     \<and> (0 < length (t_axis tr) \<longrightarrow> t_axis tr ! 0 = Fin 0)
     \<and> (1 < length (t_axis tr) \<longrightarrow> last (t_axis tr) = Fin 20)
     \<and> (length (t_axis tr) = 1 \<longrightarrow> t_axis tr = [Fin 0])
     \<and> (\<forall>i < length (t_axis tr). \<exists>y. t_axis tr ! i = Fin y
           \<and> \<bar>y - of_nat i * (20 / of_nat (length (t_axis tr) - 1))\<bar>
               \<le> of_nat i * (20 / of_nat (length (t_axis tr) - 1)) / 2 ^ 51)
     \<and> ((\<exists>r ev'. disp_avg_HRF plt read_csv fs filepath title filepath_fig show y_lim = (Inr r, ev')
            \<and> t_axis r = t_axis tr \<and> ts_mean_vec r = ts_mean_vec tr
            \<and> std_avg_across_channels r = std_avg_across_channels tr)
        \<or> (\<exists>c x ev'. plt c = Some x
            \<and> disp_avg_HRF plt read_csv fs filepath title filepath_fig show y_lim
                = (Inl (PyplotError x), ev')))"
proof -
  assume a: "fs filepath = Some content" "read_csv content = Inr df"
    and N: "index_len df \<le> 2 ^ 53"
  define N where "N = index_len df"
  define t where "t = linspace (Fin 0) (Fin 20) N"
  define m where "m = mean_axis1 (df_values (filter_like ''ts_ch'' df))"
  define tr where "tr = \<lparr>t_axis = linspace (Fin 0) (Fin 20) (index_len df),
      ts_mean_vec = mean_axis1 (df_values (filter_like ''ts_ch'' df)),
      std_avg_across_channels = mean_axis1 (df_values (filter_like ''std_ch'' df))\<rparr>"
  from pipeline_outcome(1)[of fs filepath content read_csv df, OF a]
  obtain ev where c: "reduce_traces read_csv fs filepath = (Inr tr, ev)"
    unfolding tr_def by blast
  note out = pipeline_outcome(2)[of fs filepath content read_csv df plt title filepath_fig
      "show" y_lim, OF a, folded tr_def]
  have sel: "t_axis tr = t" "ts_mean_vec tr = m"
    by (simp_all add: tr_def t_def m_def N_def)
  have lm: "length m = N"
    by (simp add: m_def N_def length_mean_axis1 length_df_values index_len_filter_like)
  have lt: "length t = N"
    by (simp add: t_def length_linspace)
  have NN: "N \<le> 2 ^ 53"
    using N by (simp add: N_def)
  have first: "0 < N \<longrightarrow> t ! 0 = Fin 0"
    unfolding t_def using linspace_first[OF NN] by blast
  have lst: "1 < N \<longrightarrow> last t = Fin 20"
    unfolding t_def using linspace_last by blast
  have one: "N = 1 \<longrightarrow> t = [Fin 0]"
    unfolding t_def using linspace_1 by auto
  have pts: "\<forall>i < N. \<exists>y. t ! i = Fin y
           \<and> \<bar>y - of_nat i * (20 / of_nat (N - 1))\<bar> \<le> of_nat i * (20 / of_nat (N - 1)) / 2 ^ 51"
    unfolding t_def using linspace_nth[OF NN] by blast
  note out' = out[unfolded sel]
  show ?thesis
    apply (rule exI[of _ tr], rule exI[of _ ev])
    unfolding sel lm lt
    by (intro conjI c t_def N_def refl first lst one pts out')
qed

theorem time_axis_evenly_spaced_witness:
  "\<exists>r ev. disp_avg_HRF no_raise (reads_as unmarked_df) (one_file ''a.csv'') ''a.csv''
       ''HRF Data'' None True None = (Inr r, ev)
     \<and> length (t_axis r) = 3 \<and> t_axis r ! 0 = Fin 0 \<and> last (t_axis r) = Fin 20
     \<and> (\<exists>y. t_axis r ! 1 = Fin y \<and> \<bar>y - 10\<bar> \<le> 10 / 2 ^ 51)"
proof -
  have n: "index_len unmarked_df = 3" "index_len unmarked_df \<le> 2 ^ 53"
    by (simp_all add: unmarked_df_def)
  from time_axis_evenly_spaced[of "one_file ''a.csv''" "''a.csv''" "''csv''"
      "reads_as unmarked_df" unmarked_df no_raise "''HRF Data''" None True None,
      OF one_file_hit reads_as_loaded n(2)]
  obtain tr :: traces where l: "length (t_axis tr) = length (ts_mean_vec tr)"
      "length (ts_mean_vec tr) = index_len unmarked_df"
    and f: "0 < length (t_axis tr) \<longrightarrow> t_axis tr ! 0 = Fin 0"
    and e: "1 < length (t_axis tr) \<longrightarrow> last (t_axis tr) = Fin 20"
    and p: "\<forall>i < length (t_axis tr). \<exists>y. t_axis tr ! i = Fin y
           \<and> \<bar>y - of_nat i * (20 / of_nat (length (t_axis tr) - 1))\<bar>
               \<le> of_nat i * (20 / of_nat (length (t_axis tr) - 1)) / 2 ^ 51"
    and out: "(\<exists>r ev'. disp_avg_HRF no_raise (reads_as unmarked_df) (one_file ''a.csv'')
            ''a.csv'' ''HRF Data'' None True None = (Inr r, ev')
            \<and> t_axis r = t_axis tr \<and> ts_mean_vec r = ts_mean_vec tr
            \<and> std_avg_across_channels r = std_avg_across_channels tr)
        \<or> (\<exists>c x ev'. no_raise c = Some x
            \<and> disp_avg_HRF no_raise (reads_as unmarked_df) (one_file ''a.csv'')
                ''a.csv'' ''HRF Data'' None True None = (Inl (PyplotError x), ev'))"
    by (elim exE conjE) (rule that; assumption)
  from out obtain r ev where d: "disp_avg_HRF no_raise (reads_as unmarked_df)
       (one_file ''a.csv'') ''a.csv'' ''HRF Data'' None True None = (Inr r, ev)"
    and rt: "t_axis r = t_axis tr" "ts_mean_vec r = ts_mean_vec tr"
    by (auto simp: no_raise_def)
  from l n have l3: "length (t_axis tr) = 3"
    by simp
  have "1 < length (t_axis tr)"
    using l3 by simp
  from p[rule_format, OF this]
  have "\<exists>y. t_axis tr ! 1 = Fin y \<and> \<bar>y - 10\<bar> \<le> 10 / 2 ^ 51"
    unfolding l3 by simp
  with d l3 f e rt show ?thesis
    by auto
qed

section \<open>Rows of equal values\<close>

lemma foldl_equal_values:
  "\<forall>j \<in> {1..m + n}. f64_round (of_nat j * v) = Fin (of_nat j * v) \<Longrightarrow>
   foldl f64_add (Fin (of_nat m * v)) (replicate n (Fin v)) = Fin (of_nat (m + n) * v)"
proof (induction n arbitrary: m)
  case 0
  then show ?case
    by simp
next
  case (Suc n)
  have "Suc m \<in> {1..m + Suc n}"
    by simp
  with Suc.prems have "f64_round (of_nat (Suc m) * v) = Fin (of_nat (Suc m) * v)"
    by blast
  then have "f64_add (Fin (of_nat m * v)) (Fin v) = Fin (of_nat (Suc m) * v)"
    by (simp add: algebra_simps)
  moreover from Suc.prems have "\<forall>j \<in> {1..Suc m + n}. f64_round (of_nat j * v) = Fin (of_nat j * v)"
    by simp
  ultimately show ?case
    using Suc.IH[of "Suc m"] by simp
qed

lemma mean_row_equal_values:
  assumes k: "0 < k" "k \<le> 2 ^ 53"
    and exact: "\<forall>j \<in> {1..k}. f64_round (of_nat j * v) = Fin (of_nat j * v)"
  shows "mean_row (replicate k (Fin v)) = Fin v"
proof -
  from k obtain n where n: "k = Suc n"
    by (cases k) simp_all
  from exact have "\<forall>j \<in> {1..1 + n}. f64_round (of_nat j * v) = Fin (of_nat j * v)"
    by (simp add: n)
  from foldl_equal_values[OF this] have "sum_row (replicate k (Fin v)) = Fin (of_nat k * v)"
    by (simp add: sum_row_def n)
  moreover have "f64_of_nat k = Fin (of_nat k)"
    using k(2) by (rule f64_of_nat_exact)
  moreover have "f64_round v = Fin v"
    using exact k(1) by (auto dest: bspec[of _ _ 1])
  ultimately show ?thesis
    using k(1) by (simp add: mean_row_def)
qed

text \<open>
  C6 (as stated, refuted). A row of three channels that all hold the float64 \<open>0.1\<close> has
  the mean \<open>0.10000000000000002\<close>, the next float64 above \<open>0.1\<close>.
\<close>

theorem equal_row_mean_rounded:
  "f64_round (1 / 10) = f64_tenth
   \<and> mean_axis1 [[f64_tenth, f64_tenth, f64_tenth]] ! 0 = Fin (7205759403792795 / 72057594037927936)
   \<and> Fin (7205759403792795 / 72057594037927936) \<noteq> f64_tenth"
  by code_simp

text \<open>
  C6 (amended). In a row of \<open>k \<ge> 1\<close> channels that all hold the finite value \<open>v\<close>, the
  mean is exactly \<open>v\<close> when every multiple \<open>j \<sqdot> v\<close>, \<open>1 \<le> j \<le> k\<close>, is a float64 (no partial
  sum is rounded); \<open>k\<close> is at most \<open>2\<^sup>5\<^sup>3\<close>.
\<close>

theorem equal_row_mean_exact:
  "i < length a \<Longrightarrow> a ! i = replicate k (Fin v) \<Longrightarrow> 0 < k \<Longrightarrow> k \<le> 2 ^ 53 \<Longrightarrow>
   \<forall>j \<in> {1..k}. f64_round (of_nat j * v) = Fin (of_nat j * v) \<Longrightarrow>
   mean_axis1 a ! i = Fin v"
  by (simp add: mean_axis1_def mean_row_equal_values)

theorem equal_row_mean_exact_witness:
  "mean_axis1 equal_rows ! 1 = Fin 3"
proof -
  have i: "1 < length equal_rows" and r: "equal_rows ! 1 = replicate 3 (Fin 3)"
    by (simp_all add: equal_rows_def numeral_3_eq_3)
  have "f64_round 3 = Fin 3" "f64_round 6 = Fin 6" "f64_round 9 = Fin 9"
    by code_simp+
  moreover have "j = 1 \<or> j = 2 \<or> j = 3" if "j \<in> {1..3::nat}" for j
    using that by auto
  ultimately have e: "\<forall>j \<in> {1..3::nat}. f64_round (of_nat j * 3) = Fin (of_nat j * 3)"
    by fastforce
  from equal_row_mean_exact[OF i r _ _ e] show ?thesis
    by simp
qed

section \<open>Permuted channels\<close>

lemma f64_add_commute: "f64_add x y = f64_add y x"
  by (cases x; cases y) (simp_all add: add.commute)

lemma submultiset_subseq: "M \<subseteq># mset xs \<Longrightarrow> \<exists>ys. subseq ys xs \<and> mset ys = M"
proof (induction xs arbitrary: M)
  case Nil
  then show ?case
    by simp
next
  case (Cons x xs)
  show ?case
  proof (cases "x \<in># M")
    case True
    from Cons.prems have "M - {#x#} \<subseteq># mset xs"
      by (simp add: subset_eq_diff_conv)
    from Cons.IH[OF this] obtain ys where "subseq ys xs" "mset ys = M - {#x#}"
      by blast
    with True have "subseq (x # ys) (x # xs)" "mset (x # ys) = M"
      by simp_all
    then show ?thesis
      by blast
  next
    case False
    have "count M a \<le> count (mset xs) a" for a
    proof (cases "a = x")
      case True
      with False show ?thesis
        by (simp add: not_in_iff)
    next
      case False
      from Cons.prems have "count M a \<le> count (add_mset x (mset xs)) a"
        by (simp add: subseteq_mset_def)
      with False show ?thesis
        by simp
    qed
    then have "M \<subseteq># mset xs"
      by (simp add: subseteq_mset_def)
    from Cons.IH[OF this] obtain ys where ys: "subseq ys xs" "mset ys = M"
      by blast
    from ys(1) have "subseq ys (x # xs)"
      by (rule list_emb_Cons)
    with ys(2) show ?thesis
      by blast
  qed
qed

lemma foldl_exact:
  "(\<And>ps. prefix ps ws \<Longrightarrow> f64_round (a + sum_list ps) = Fin (a + sum_list ps)) \<Longrightarrow>
   foldl f64_add (Fin a) (map Fin ws) = Fin (a + sum_list ws)"
proof (induction ws rule: rev_induct)
  case Nil
  then show ?case
    by simp
next
  case (snoc w ws)
  have "foldl f64_add (Fin a) (map Fin ws) = Fin (a + sum_list ws)"
    using snoc.prems by (intro snoc.IH) simp
  moreover have "f64_round (a + sum_list (ws @ [w])) = Fin (a + sum_list (ws @ [w]))"
    by (rule snoc.prems) simp
  ultimately show ?case
    by (simp add: add.assoc)
qed


lemma sum_row_exact:
  assumes p: "mset qs' = mset qs"
    and e: "\<forall>ys \<in> set (subseqs qs). f64_round (sum_list ys) = Fin (sum_list ys)"
  shows "sum_row (map Fin qs') = Fin (sum_list qs)"
proof (cases qs')
  case Nil
  with p show ?thesis
    by (simp add: sum_row_def)
next
  case (Cons a ws)
  have "f64_round (a + sum_list ps) = Fin (a + sum_list ps)" if "prefix ps ws" for ps
  proof -
    from that obtain r where "ws = ps @ r"
      by (auto simp: prefix_def)
    then have "mset (a # ps) \<subseteq># mset qs"
      by (simp add: p[symmetric] Cons)
    from submultiset_subseq[OF this] obtain ys where ys: "subseq ys qs" "mset ys = mset (a # ps)"
      by blast
    from ys(2) have "sum_mset (mset ys) = sum_mset (mset (a # ps))"
      by (rule arg_cong)
    then have "sum_list ys = a + sum_list ps"
      by (simp only: sum_mset_sum_list) simp
    moreover from ys(1) e have "f64_round (sum_list ys) = Fin (sum_list ys)"
      by simp
    ultimately show ?thesis
      by simp
  qed
  then have "foldl f64_add (Fin a) (map Fin ws) = Fin (a + sum_list ws)"
    by (rule foldl_exact)
  moreover have "sum_list qs = a + sum_list ws"
  proof -
    from p have "sum_mset (mset qs') = sum_mset (mset qs)"
      by (rule arg_cong)
    then show ?thesis
      by (simp only: sum_mset_sum_list) (simp add: Cons)
  qed
  ultimately show ?thesis
    by (simp add: sum_row_def Cons)
qed

lemma fin_row: "list_all is_fin row \<Longrightarrow> map Fin (map the_fin row) = row"
  by (induction row) (auto simp: is_fin_def split: f64.splits)

lemma mean_row_permuted:
  assumes p: "mset row' = mset row" and e: "all_sums_exact row"
  shows "mean_row row' = mean_row row"
proof -
  let ?qs = "map the_fin row"
  let ?qs' = "map the_fin row'"
  from e have f: "list_all is_fin row"
    and s: "\<forall>ys \<in> set (subseqs ?qs). f64_round (sum_list ys) = Fin (sum_list ys)"
    by (simp_all add: all_sums_exact_def)
  from p have "set row' = set row"
    by (rule mset_eq_setD)
  with f have f': "list_all is_fin row'"
    by (simp add: list_all_iff)
  from p have q: "mset ?qs' = mset ?qs"
    by simp
  have "sum_row (map Fin ?qs') = Fin (sum_list ?qs)"
    using q s by (rule sum_row_exact)
  moreover have "sum_row (map Fin ?qs) = Fin (sum_list ?qs)"
    using refl s by (rule sum_row_exact)
  ultimately have "sum_row row' = sum_row row"
    by (simp only: fin_row[OF f] fin_row[OF f'])
  moreover from p have "length row' = length row"
    by (rule mset_eq_length)
  ultimately show ?thesis
    by (simp add: mean_row_def)
qed

lemma mean_row_two:
  assumes p: "mset row' = mset row" and l: "length row \<le> 2"
  shows "mean_row row' = mean_row row"
proof -
  from p have n: "length row' = length row"
    by (rule mset_eq_length)
  consider "row = []" | x where "row = [x]" | x y where "row = [x, y]"
    using l by (cases row; cases "tl row"; cases "tl (tl row)") auto
  then show ?thesis
  proof cases
    case 1
    with p show ?thesis
      by simp
  next
    case 2
    with p show ?thesis
      by (cases row') (auto simp: single_is_union)
  next
    case 3
    from n 3 obtain a b where r': "row' = [a, b]"
      by (cases row'; cases "tl row'") auto
    with p 3 have "(a = x \<and> b = y) \<or> (a = y \<and> b = x)"
      by (auto simp: add_eq_conv_ex)
    then show ?thesis
      using f64_add_commute[of x y] by (auto simp: mean_row_def sum_row_def r' 3)
  qed
qed


lemma df_values_row:
  "i < index_len df \<Longrightarrow> df_values df ! i = map (\<lambda>(name, col). col ! i) (columns df)"
  by (simp add: df_values_def)

lemma permuted_rows:
  "mset (columns df') = mset (columns df) \<Longrightarrow>
   mset (map (\<lambda>(name, col). col ! i) (columns df'))
     = mset (map (\<lambda>(name, col). col ! i) (columns df))"
  by (simp only: mset_map)

text \<open>
  C5 (as stated, refuted). The three channel values \<open>2\<^sup>5\<^sup>3\<close>, \<open>1\<close> and \<open>-2\<^sup>5\<^sup>3\<close> of one row
  are float64s, and reversing the order of the three columns changes the mean of the row.
\<close>

theorem channel_order_changes_mean:
  "wf_df cancelling_df
   \<and> index_len cancelling_df_reversed = index_len cancelling_df
   \<and> columns cancelling_df_reversed = rev (columns cancelling_df)
   \<and> mean_axis1 (df_values cancelling_df_reversed) \<noteq> mean_axis1 (df_values cancelling_df)"
  by code_simp

text \<open>
  C5 (amended). Permuting the channel columns of a group leaves the mean of every row
  unchanged when the group has at most two columns, or when in every row the values are
  finite and the sum of every selection of them is a float64, so that no partial sum is
  rounded in any order.
\<close>

theorem channel_order_independent:
  "index_len df' = index_len df \<Longrightarrow> mset (columns df') = mset (columns df) \<Longrightarrow>
   length (columns df) \<le> 2 \<or> (\<forall>row \<in> set (df_values df). all_sums_exact row) \<Longrightarrow>
   mean_axis1 (df_values df') = mean_axis1 (df_values df)"
proof -
  assume n: "index_len df' = index_len df" and p: "mset (columns df') = mset (columns df)"
    and c: "length (columns df) \<le> 2 \<or> (\<forall>row \<in> set (df_values df). all_sums_exact row)"
  have "mean_row (df_values df' ! i) = mean_row (df_values df ! i)" if i: "i < index_len df" for i
  proof -
    let ?row = "map (\<lambda>(name, col). col ! i) (columns df)"
    let ?row' = "map (\<lambda>(name, col). col ! i) (columns df')"
    have m: "mset ?row' = mset ?row"
      using p by (rule permuted_rows)
    have "mean_row ?row' = mean_row ?row"
    proof (cases "length (columns df) \<le> 2")
      case True
      then have "length ?row \<le> 2"
        by simp
      with m show ?thesis
        by (rule mean_row_two)
    next
      case False
      with c have "\<forall>row \<in> set (df_values df). all_sums_exact row"
        by blast
      moreover have "df_values df ! i \<in> set (df_values df)"
        using i by (simp add: length_df_values)
      ultimately have "all_sums_exact ?row"
        using i by (simp only: df_values_row[symmetric])
      with m show ?thesis
        by (rule mean_row_permuted)
    qed
    then show ?thesis
      using i n by (simp only: df_values_row)
  qed
  then show ?thesis
    by (simp add: mean_axis1_def list_eq_iff_nth_eq length_df_values n)
qed

theorem channel_order_independent_witness:
  "mean_axis1 (df_values three_channel_df_permuted) = mean_axis1 (df_values three_channel_df)"
proof -
  have n: "index_len three_channel_df_permuted = index_len three_channel_df"
    by (simp add: three_channel_df_permuted_def three_channel_df_def)
  have p: "mset (columns three_channel_df_permuted) = mset (columns three_channel_df)"
    by (simp add: three_channel_df_permuted_def three_channel_df_def)
  have e: "\<forall>row \<in> set (df_values three_channel_df). all_sums_exact row"
    by code_simp
  from channel_order_independent[OF n p disjI2, OF e] show ?thesis .
qed

end
